theory Spec2Isabelle
  imports Complex_Main "HOL-Library.Log_Nat" "HOL-Library.Word"
begin

section \<open>Python floats: IEEE 754 binary64 with round-to-nearest-even\<close>

text \<open>
  \<^verbatim>\<open>scripts/generate_assets.py\<close> computes every colour and alpha value in Python
  \<^verbatim>\<open>float\<close> arithmetic and truncates the result with \<^verbatim>\<open>int(...)\<close>. A float is modelled
  as the rational number it denotes. Each of \<^verbatim>\<open>+ - * /\<close> returns the exact result rounded
  to the nearest binary64 value, ties to the even significand; \<open>round_double\<close> is that
  rounding. Infinities and NaN are not modelled: every value of the program is below
  \<open>2 ^ 16\<close> in magnitude. Signed zeros denote the same number and are not distinguished.
\<close>

definition rne :: "rat \<Rightarrow> int" where
  \<comment> \<open>round to the nearest integer, a tie to the even one\<close>
  "rne x = (let f = \<lfloor>x\<rfloor>; d = x - of_int f in
     if d < 1/2 then f else if 1/2 < d then f + 1 else if even f then f else f + 1)"

definition ilog2 :: "rat \<Rightarrow> int" where
  \<comment> \<open>for \<open>x \<noteq> 0\<close> the exponent \<open>e\<close> with \<open>2 powi e \<le> \<bar>x\<bar> < 2 powi (e + 1)\<close>\<close>
  "ilog2 x = (case quotient_of \<bar>x\<bar> of (p, q) \<Rightarrow>
     let k = bitlen p - bitlen q in if 2 powi k \<le> \<bar>x\<bar> then k else k - 1)"

definition ulp_exp :: "rat \<Rightarrow> int" where
  \<comment> \<open>exponent of the unit in the last place: 53 significant bits, subnormal below \<open>2 powi - 1022\<close>\<close>
  "ulp_exp x = max (ilog2 x) (- 1022) - 52"

definition round_double :: "rat \<Rightarrow> rat" where
  "round_double x = (if x = 0 then 0 else of_int (rne (x / 2 powi ulp_exp x)) * 2 powi ulp_exp x)"

definition flit :: "rat \<Rightarrow> rat" where
  \<comment> \<open>a decimal literal such as \<^verbatim>\<open>0.8\<close>: the nearest double\<close>
  "flit q = round_double q"

definition float_of_int :: "int \<Rightarrow> rat" where
  \<comment> \<open>the conversion Python applies to an \<^verbatim>\<open>int\<close> operand of a mixed operation\<close>
  "float_of_int i = round_double (of_int i)"

definition fadd :: "rat \<Rightarrow> rat \<Rightarrow> rat" where
  "fadd x y = round_double (x + y)"

definition fsub :: "rat \<Rightarrow> rat \<Rightarrow> rat" where
  "fsub x y = round_double (x - y)"

definition fmul :: "rat \<Rightarrow> rat \<Rightarrow> rat" where
  "fmul x y = round_double (x * y)"

definition fdiv :: "rat \<Rightarrow> rat \<Rightarrow> rat" where
  \<comment> \<open>\<^verbatim>\<open>x / y\<close> for \<open>y \<noteq> 0\<close>; a caller whose divisor is not a nonzero literal tests it first
      and raises \<^verbatim>\<open>ZeroDivisionError\<close>\<close>
  "fdiv x y = round_double (x / y)"

definition py_int :: "rat \<Rightarrow> int" where
  \<comment> \<open>\<^verbatim>\<open>int(x)\<close> on a float: truncation towards zero\<close>
  "py_int x = (if 0 \<le> x then \<lfloor>x\<rfloor> else \<lceil>x\<rceil>)"

definition py_min :: "rat \<Rightarrow> rat \<Rightarrow> rat" where
  \<comment> \<open>\<^verbatim>\<open>min(a, b)\<close>: the first argument unless the second is strictly smaller\<close>
  "py_min a b = (if b < a then b else a)"

text \<open>
  \<^verbatim>\<open>x ** 0.5\<close> is computed by the C library's \<^verbatim>\<open>pow\<close>, which is not part of the
  repository: the generators take it as the parameter \<open>pw\<close>, and every general theorem
  holds for each \<open>pw\<close> that meets its hypotheses. \<open>sqrt_double\<close> is the correctly rounded
  square root. \<^verbatim>\<open>pow\<close> need not round correctly and may differ from it in the last place
  at some arguments; the two agree at the arguments where a closed statement below
  evaluates a generator: the squared distances 0, 25, 484, 529, 2048 and 32768. The
  square root of the scaled argument is an integer or irrational, so it never lies on a
  rounding boundary and rounding \<open>s + 1/2\<close> for the integer part \<open>s\<close> (at least 55 bits)
  rounds the root itself.
\<close>

function isqrt :: "int \<Rightarrow> int" where
  \<comment> \<open>the integer part of the square root, two bits of the argument at a time\<close>
  "isqrt n = (if n \<le> 0 then 0 else
     let r = 2 * isqrt (n div 4) in if (r + 1) * (r + 1) \<le> n then r + 1 else r)"
  by pat_completeness auto
termination
  by (relation "measure nat") auto

declare isqrt.simps [simp del]

definition sqrt_double :: "rat \<Rightarrow> rat" where
  "sqrt_double x = (if x \<le> 0 then 0 else
     let k = 54 - ilog2 x div 2;
         X = x * 4 powi k;
         s = isqrt \<lfloor>X\<rfloor> in
     if of_int (s * s) = X then round_double (of_int s / 2 powi k)
     else round_double ((of_int s + 1/2) / 2 powi k))"


section \<open>Exceptions and loops\<close>

datatype exn =
  ValueError | IndexError | ZeroDivisionError | UnicodeEncodeError | OSError string

definition bnd :: "exn + 'a \<Rightarrow> ('a \<Rightarrow> exn + 'b) \<Rightarrow> exn + 'b" where
  \<comment> \<open>sequencing: an exception raised by the first statement skips the rest\<close>
  "bnd m f = (case m of Inl e \<Rightarrow> Inl e | Inr v \<Rightarrow> f v)"

fun for_each :: "'a list \<Rightarrow> ('a \<Rightarrow> 's \<Rightarrow> exn + 's) \<Rightarrow> 's \<Rightarrow> exn + 's" where
  \<comment> \<open>\<^verbatim>\<open>for x in xs: body\<close>, the loop left by the first exception\<close>
  "for_each [] body s = Inr s"
| "for_each (x # xs) body s = (case body x s of Inl e \<Rightarrow> Inl e | Inr s' \<Rightarrow> for_each xs body s')"

definition py_index :: "'a list \<Rightarrow> int \<Rightarrow> exn + 'a" where
  \<comment> \<open>\<^verbatim>\<open>xs[i]\<close>; the indices \<open>- len(xs), \<dots>, - 1\<close> count from the end\<close>
  "py_index xs i =
     (if 0 \<le> i \<and> i < int (length xs) then Inr (xs ! nat i)
      else if i < 0 \<and> - int (length xs) \<le> i then Inr (xs ! nat (int (length xs) + i))
      else Inl IndexError)"


section \<open>Image buffers\<close>

text \<open>
  A PIL image: its mode, its size \<open>(width, height)\<close> and its pixel data. A pixel of an
  \<^verbatim>\<open>'L'\<close> image is one byte; the channels handed to \<^verbatim>\<open>putpixel\<close> are the Python
  integers the generator computed.
\<close>

datatype pixel = L "8 word" | RGB int int int | RGBA int int int int

record image =
  im_mode :: string
  im_size :: "nat \<times> nat"
  im_px :: "nat \<times> nat \<Rightarrow> pixel"

definition Image_new :: "string \<Rightarrow> nat \<times> nat \<Rightarrow> pixel \<Rightarrow> image" where
  "Image_new m sz colour = \<lparr>im_mode = m, im_size = sz, im_px = (\<lambda>_. colour)\<rparr>"

definition putpixel :: "image \<Rightarrow> nat \<times> nat \<Rightarrow> pixel \<Rightarrow> exn + image" where
  "putpixel img xy colour =
     (if fst xy < fst (im_size img) \<and> snd xy < snd (im_size img)
      then Inr (img\<lparr>im_px := (im_px img)(xy := colour)\<rparr>)
      else Inl IndexError)"

definition getpixel :: "image \<Rightarrow> nat \<times> nat \<Rightarrow> exn + pixel" where
  \<comment> \<open>reading a pixel back, as \<^verbatim>\<open>Image.getpixel\<close> does\<close>
  "getpixel img xy =
     (if fst xy < fst (im_size img) \<and> snd xy < snd (im_size img)
      then Inr (im_px img xy)
      else Inl IndexError)"


section \<open>Colour stops\<close>

definition hex_digit :: "char \<Rightarrow> nat option" where
  "hex_digit c = map_of
     [(CHR ''0'', 0), (CHR ''1'', 1), (CHR ''2'', 2), (CHR ''3'', 3), (CHR ''4'', 4),
      (CHR ''5'', 5), (CHR ''6'', 6), (CHR ''7'', 7), (CHR ''8'', 8), (CHR ''9'', 9),
      (CHR ''a'', 10), (CHR ''b'', 11), (CHR ''c'', 12), (CHR ''d'', 13), (CHR ''e'', 14),
      (CHR ''f'', 15), (CHR ''A'', 10), (CHR ''B'', 11), (CHR ''C'', 12), (CHR ''D'', 13),
      (CHR ''E'', 14), (CHR ''F'', 15)] c"

fun hex_value :: "int \<Rightarrow> string \<Rightarrow> int option" where
  "hex_value acc [] = Some acc"
| "hex_value acc (c # cs) =
     (case hex_digit c of None \<Rightarrow> None | Some d \<Rightarrow> hex_value (16 * acc + int d) cs)"

definition int16 :: "string \<Rightarrow> exn + int" where
  \<comment> \<open>\<^verbatim>\<open>int(s, 16)\<close> on a string of hexadecimal digits; the signs, blanks, underscores
      and \<^verbatim>\<open>0x\<close> prefix that Python also reads occur in no colour stop and are not
      modelled\<close>
  "int16 s = (if s = [] then Inl ValueError
     else case hex_value 0 s of None \<Rightarrow> Inl ValueError | Some v \<Rightarrow> Inr v)"

definition slice :: "string \<Rightarrow> nat \<Rightarrow> nat \<Rightarrow> string" where
  \<comment> \<open>\<^verbatim>\<open>s[i:j]\<close> for \<open>0 \<le> i \<le> j\<close>\<close>
  "slice s i j = take (j - i) (drop i s)"

definition hex_to_rgb :: "string \<Rightarrow> exn + (int \<times> int \<times> int)" where
  "hex_to_rgb hex_color =
     (let h = dropWhile (\<lambda>c. c = CHR ''#'') hex_color in
      bnd (int16 (slice h 0 2)) (\<lambda>r.
      bnd (int16 (slice h 2 4)) (\<lambda>g.
      bnd (int16 (slice h 4 6)) (\<lambda>b. Inr (r, g, b)))))"


section \<open>The gradient generator\<close>

definition gradient_segment :: "nat \<Rightarrow> nat \<Rightarrow> nat \<Rightarrow> rat" where
  \<comment> \<open>\<^verbatim>\<open>segment = (y / height) * (len(colors) - 1)\<close>, \<open>n\<close> the number of stops\<close>
  "gradient_segment n height y =
     fmul (round_double (of_nat y / of_nat height)) (float_of_int (int n - 1))"

definition gradient_idx :: "nat \<Rightarrow> nat \<Rightarrow> nat \<Rightarrow> int" where
  "gradient_idx n height y = py_int (gradient_segment n height y)"

definition lerp_channel :: "int \<Rightarrow> int \<Rightarrow> rat \<Rightarrow> int" where
  \<comment> \<open>\<^verbatim>\<open>int(c1[i] + (c2[i] - c1[i]) * t)\<close>\<close>
  "lerp_channel a b t = py_int (fadd (float_of_int a) (fmul (float_of_int (b - a)) t))"

definition interpolate :: "(int \<times> int \<times> int) list \<Rightarrow> int \<Rightarrow> rat \<Rightarrow> exn + pixel" where
  \<comment> \<open>the \<^verbatim>\<open>else\<close> branch: between \<^verbatim>\<open>colors[idx]\<close> and \<^verbatim>\<open>colors[idx + 1]\<close>\<close>
  "interpolate colors idx segment =
     (let t = fsub segment (float_of_int idx) in
      bnd (py_index colors idx) (\<lambda>(r1, g1, b1).
      bnd (py_index colors (idx + 1)) (\<lambda>(r2, g2, b2).
        Inr (RGB (lerp_channel r1 r2 t) (lerp_channel g1 g2 t) (lerp_channel b1 b2 t)))))"

definition gradient_color :: "(int \<times> int \<times> int) list \<Rightarrow> nat \<Rightarrow> nat \<Rightarrow> exn + pixel" where
  "gradient_color colors height y =
     (if height = 0 then Inl ZeroDivisionError else
      let segment = gradient_segment (length colors) height y;
          idx = py_int segment in
      if idx \<ge> int (length colors) - 1
      then bnd (py_index colors (- 1)) (\<lambda>(r, g, b). Inr (RGB r g b))
      else interpolate colors idx segment)"

definition gradient_stops :: "exn + (int \<times> int \<times> int) list" where
  "gradient_stops =
     bnd (hex_to_rgb ''#1a0033'') (\<lambda>c0.
     bnd (hex_to_rgb ''#4a0080'') (\<lambda>c1.
     bnd (hex_to_rgb ''#8b00ff'') (\<lambda>c2.
     bnd (hex_to_rgb ''#d580ff'') (\<lambda>c3. Inr [c0, c1, c2, c3]))))"

definition gradient_row :: "nat \<Rightarrow> pixel" where
  \<comment> \<open>the colour the loop computes for row \<open>y\<close> from the four decoded stops\<close>
  "gradient_row y =
     (case gradient_color [(26, 0, 51), (74, 0, 128), (139, 0, 255), (213, 128, 255)] 256 y of
        Inr c \<Rightarrow> c | Inl _ \<Rightarrow> RGB 0 0 0)"

definition generate_purple_gradient :: "exn + image" where
  "generate_purple_gradient =
     (let width = 256; height = 256;
          img = Image_new ''RGB'' (width, height) (RGB 0 0 0) in
      bnd gradient_stops (\<lambda>colors.
        for_each [0..<height] (\<lambda>y img.
          bnd (gradient_color colors height y) (\<lambda>color.
            for_each [0..<width] (\<lambda>x img. putpixel img (x, y) color) img)) img))"


section \<open>The noise generator\<close>

text \<open>
  \<^verbatim>\<open>np.random.randint(0, 256, (height, width), dtype=np.uint8)\<close> and PIL's
  \<^verbatim>\<open>GaussianBlur\<close> are library code: the sampled array \<open>noise\<close> (indexed by row and
  column) and the filter \<open>blur\<close> on the band of an \<^verbatim>\<open>'L'\<close> image are parameters.
\<close>

definition fromarray_L :: "nat \<times> nat \<Rightarrow> (nat \<times> nat \<Rightarrow> 8 word) \<Rightarrow> image" where
  \<comment> \<open>\<^verbatim>\<open>Image.fromarray(a, mode='L')\<close>: pixel \<open>(x, y)\<close> is the array element at row \<open>y\<close>, column \<open>x\<close>\<close>
  "fromarray_L sz a = \<lparr>im_mode = ''L'', im_size = sz, im_px = (\<lambda>(x, y). L (a (y, x)))\<rparr>"

definition band_L :: "image \<Rightarrow> nat \<times> nat \<Rightarrow> 8 word" where
  "band_L img xy = (case im_px img xy of L v \<Rightarrow> v | _ \<Rightarrow> 0)"

definition filter_L :: "((nat \<times> nat \<Rightarrow> 8 word) \<Rightarrow> nat \<times> nat \<Rightarrow> 8 word) \<Rightarrow> image \<Rightarrow> image" where
  \<comment> \<open>\<^verbatim>\<open>img.filter(f)\<close> on an \<^verbatim>\<open>'L'\<close> image: a new image of the same mode and size\<close>
  "filter_L f img = \<lparr>im_mode = im_mode img, im_size = im_size img, im_px = (\<lambda>xy. L (f (band_L img) xy))\<rparr>"

definition generate_noise_texture ::
    "(nat \<times> nat \<Rightarrow> 8 word) \<Rightarrow> ((nat \<times> nat \<Rightarrow> 8 word) \<Rightarrow> nat \<times> nat \<Rightarrow> 8 word) \<Rightarrow> exn + image" where
  "generate_noise_texture noise blur =
     (let width = 512; height = 512;
          img = fromarray_L (width, height) noise;
          img = filter_L blur img in
      Inr img)"


section \<open>The matcap generator\<close>

definition sq_distance :: "int \<Rightarrow> int \<Rightarrow> int \<Rightarrow> int \<Rightarrow> int" where
  \<comment> \<open>\<^verbatim>\<open>dx*dx + dy*dy\<close> for \<^verbatim>\<open>dx = x - center_x\<close>, \<^verbatim>\<open>dy = y - center_y\<close>\<close>
  "sq_distance center_x center_y x y =
     (let dx = x - center_x; dy = y - center_y in dx * dx + dy * dy)"

definition matcap_norm_dist :: "(rat \<Rightarrow> rat) \<Rightarrow> int \<Rightarrow> int \<Rightarrow> int \<Rightarrow> int \<Rightarrow> exn + rat" where
  "matcap_norm_dist pw center_x center_y x y =
     (let distance = pw (float_of_int (sq_distance center_x center_y x y));
          max_distance = pw (float_of_int (center_x ^ 2 + center_y ^ 2)) in
      if max_distance = 0 then Inl ZeroDivisionError
      else Inr (py_min (fdiv distance max_distance) (flit 1)))"

definition matcap_channel :: "rat \<Rightarrow> rat \<Rightarrow> int" where
  \<comment> \<open>\<^verbatim>\<open>int(255 * (1 - norm_dist * k))\<close>\<close>
  "matcap_channel k norm_dist =
     py_int (fmul (float_of_int 255) (fsub (float_of_int 1) (fmul norm_dist k)))"

definition matcap_pixel :: "(rat \<Rightarrow> rat) \<Rightarrow> int \<Rightarrow> int \<Rightarrow> int \<Rightarrow> int \<Rightarrow> exn + pixel" where
  "matcap_pixel pw center_x center_y x y =
     bnd (matcap_norm_dist pw center_x center_y x y) (\<lambda>norm_dist.
       let r = matcap_channel (flit (8/10)) norm_dist;
           g = matcap_channel (flit (8/10)) norm_dist;
           b = matcap_channel (flit (5/10)) norm_dist in
       Inr (RGB r g b))"

definition generate_matcap_texture :: "(rat \<Rightarrow> rat) \<Rightarrow> exn + image" where
  \<comment> \<open>the unused \<^verbatim>\<open>ImageDraw.Draw(img)\<close> handle is left out\<close>
  "generate_matcap_texture pw =
     (let width = 256; height = 256;
          img = Image_new ''RGB'' (width, height) (RGB 0 0 0);
          center_x = int width div 2; center_y = int height div 2 in
      for_each [0..<height] (\<lambda>y img.
        for_each [0..<width] (\<lambda>x img.
          bnd (matcap_pixel pw center_x center_y (int x) (int y)) (\<lambda>c.
            putpixel img (x, y) c)) img) img)"


section \<open>The particle sprites\<close>

definition sprite_norm_dist :: "(rat \<Rightarrow> rat) \<Rightarrow> int \<Rightarrow> int \<Rightarrow> int \<Rightarrow> exn + rat" where
  \<comment> \<open>both sprite generators: \<^verbatim>\<open>min(distance / max_distance, 1.0)\<close> with \<^verbatim>\<open>max_distance = center\<close>\<close>
  "sprite_norm_dist pw center x y =
     (let distance = pw (float_of_int (sq_distance center center x y));
          max_distance = center in
      if max_distance = 0 then Inl ZeroDivisionError
      else Inr (py_min (fdiv distance (float_of_int max_distance)) (flit 1)))"

definition glow_mid_val :: "rat \<Rightarrow> rat" where
  \<comment> \<open>\<^verbatim>\<open>255 * (1 - (norm_dist - 0.2) / 0.3 * 0.2)\<close>\<close>
  "glow_mid_val n =
     fmul (float_of_int 255)
       (fsub (float_of_int 1) (fmul (fdiv (fsub n (flit (2/10))) (flit (3/10))) (flit (2/10))))"

definition glow_edge_val :: "rat \<Rightarrow> rat" where
  \<comment> \<open>\<^verbatim>\<open>255 * (1 - (norm_dist - 0.5) / 0.5) * 0.8\<close>\<close>
  "glow_edge_val n =
     fmul (fmul (float_of_int 255)
       (fsub (float_of_int 1) (fdiv (fsub n (flit (5/10))) (flit (5/10))))) (flit (8/10))"

definition glow_alpha :: "rat \<Rightarrow> int" where
  "glow_alpha norm_dist =
     (if norm_dist < flit (2/10) then 255
      else if norm_dist < flit (5/10) then py_int (glow_mid_val norm_dist)
      else if norm_dist < flit 1 then py_int (glow_edge_val norm_dist)
      else 0)"

definition soft_core_val :: rat where
  \<comment> \<open>\<^verbatim>\<open>255 * 0.6\<close>\<close>
  "soft_core_val = fmul (float_of_int 255) (flit (6/10))"

definition soft_mid_val :: "rat \<Rightarrow> rat" where
  \<comment> \<open>\<^verbatim>\<open>255 * 0.6 * (1 - (norm_dist - 0.3) / 0.4)\<close>\<close>
  "soft_mid_val n =
     fmul soft_core_val (fsub (float_of_int 1) (fdiv (fsub n (flit (3/10))) (flit (4/10))))"

definition soft_edge_val :: "rat \<Rightarrow> rat" where
  \<comment> \<open>\<^verbatim>\<open>255 * 0.6 * (1 - (norm_dist - 0.7) / 0.3) * 0.3\<close>\<close>
  "soft_edge_val n =
     fmul (fmul soft_core_val
       (fsub (float_of_int 1) (fdiv (fsub n (flit (7/10))) (flit (3/10))))) (flit (3/10))"

definition soft_alpha :: "rat \<Rightarrow> int" where
  "soft_alpha norm_dist =
     (if norm_dist < flit (3/10) then py_int soft_core_val
      else if norm_dist < flit (7/10) then py_int (soft_mid_val norm_dist)
      else if norm_dist < flit 1 then py_int (soft_edge_val norm_dist)
      else 0)"

definition sprite_pixel ::
    "(rat \<Rightarrow> int) \<Rightarrow> (rat \<Rightarrow> rat) \<Rightarrow> int \<Rightarrow> int \<Rightarrow> int \<Rightarrow> exn + pixel" where
  "sprite_pixel alpha_of pw center x y =
     bnd (sprite_norm_dist pw center x y) (\<lambda>norm_dist.
       let alpha = alpha_of norm_dist in Inr (RGBA 255 255 255 alpha))"

definition sprite_loops :: "(rat \<Rightarrow> int) \<Rightarrow> (rat \<Rightarrow> rat) \<Rightarrow> exn + image" where
  \<comment> \<open>the body the two sprite generators share, up to the alpha profile\<close>
  "sprite_loops alpha_of pw =
     (let size = 64;
          img = Image_new ''RGBA'' (size, size) (RGBA 0 0 0 0);
          center = int size div 2 in
      for_each [0..<size] (\<lambda>y img.
        for_each [0..<size] (\<lambda>x img.
          bnd (sprite_pixel alpha_of pw center (int x) (int y)) (\<lambda>c.
            putpixel img (x, y) c)) img) img)"

definition generate_particle_sprite :: "(rat \<Rightarrow> rat) \<Rightarrow> exn + image" where
  "generate_particle_sprite pw = sprite_loops glow_alpha pw"

definition generate_soft_particle_sprite :: "(rat \<Rightarrow> rat) \<Rightarrow> exn + image" where
  "generate_soft_particle_sprite pw = sprite_loops soft_alpha pw"

definition glow_segment :: "rat \<Rightarrow> nat" where
  \<comment> \<open>which branch of the glow profile a normalised distance takes\<close>
  "glow_segment n = (if n < flit (2/10) then 0 else if n < flit (5/10) then 1
     else if n < flit 1 then 2 else 3)"

definition soft_segment :: "rat \<Rightarrow> nat" where
  "soft_segment n = (if n < flit (3/10) then 0 else if n < flit (7/10) then 1
     else if n < flit 1 then 2 else 3)"


section \<open>The driver\<close>

text \<open>
  The file system and the console are external. \<open>sink_mkdir\<close> stands for
  \<^verbatim>\<open>Path.mkdir(parents=True, exist_ok=True)\<close> and \<open>sink_save\<close> for \<^verbatim>\<open>Image.save\<close>; each
  returns the exception it raised, if any, and the file system it left. \<open>sink_print\<close>
  tells for each line whether writing it to stdout raises: the lines of lines 215 and
  218 of the script start with the marks U+2713 and U+2717, which a stdout that cannot
  encode them refuses with \<^verbatim>\<open>UnicodeEncodeError\<close>. The lines that were written are the
  output of the run. A path is its list of components.
\<close>

datatype out_line =
    Banner
  | GeneratedLine string string
  | DescriptionLine string
  | FailedLine string string
  | ErrorLine exn
  | Complete

record 'fs sink =
  sink_mkdir :: "string list \<Rightarrow> 'fs \<Rightarrow> exn option \<times> 'fs"
  sink_save :: "image \<Rightarrow> string list \<Rightarrow> 'fs \<Rightarrow> exn option \<times> 'fs"
  sink_print :: "out_line \<Rightarrow> exn option"

record 'fs world =
  w_fs :: 'fs
  w_out :: "out_line list"

record asset =
  a_name :: string
  a_path :: string
  a_generator :: "exn + image"
  a_description :: string

definition print :: "'fs sink \<Rightarrow> out_line \<Rightarrow> 'fs world \<Rightarrow> exn option \<times> 'fs world" where
  "print sink txt w =
     (case sink_print sink txt of
        None \<Rightarrow> (None, w\<lparr>w_out := w_out w @ [txt]\<rparr>)
      | Some e \<Rightarrow> (Some e, w))"

definition OUTPUT_DIR :: "string list \<Rightarrow> string list" where
  \<comment> \<open>\<^verbatim>\<open>Path(__file__).parent.parent / "public" / "assets"\<close>, \<open>base\<close> the script's grandparent\<close>
  "OUTPUT_DIR base = base @ [''public'', ''assets'']"

definition ensure_directories :: "'fs sink \<Rightarrow> string list \<Rightarrow> 'fs \<Rightarrow> exn option \<times> 'fs" where
  "ensure_directories sink base fs =
     (case sink_mkdir sink (OUTPUT_DIR base @ [''textures'']) fs of
        (Some e, fs1) \<Rightarrow> (Some e, fs1)
      | (None, fs1) \<Rightarrow>
     (case sink_mkdir sink (OUTPUT_DIR base @ [''sprites'']) fs1 of
        (Some e, fs2) \<Rightarrow> (Some e, fs2)
      | (None, fs2) \<Rightarrow> sink_mkdir sink (OUTPUT_DIR base @ [''hdri'']) fs2))"

definition try_body :: "'fs sink \<Rightarrow> string list \<Rightarrow> asset \<Rightarrow> 'fs world \<Rightarrow> exn option \<times> 'fs world" where
  \<comment> \<open>lines 212 to 216: the generator call, \<^verbatim>\<open>img.save\<close> and the two prints of the success
      report; the first exception ends the block\<close>
  "try_body sink base a w =
     (case a_generator a of
        Inl e \<Rightarrow> (Some e, w)
      | Inr img \<Rightarrow>
     (case sink_save sink img (OUTPUT_DIR base @ [a_path a, a_name a]) (w_fs w) of
        (Some e, fs') \<Rightarrow> (Some e, w\<lparr>w_fs := fs'\<rparr>)
      | (None, fs') \<Rightarrow>
     (case print sink (GeneratedLine (a_path a) (a_name a)) (w\<lparr>w_fs := fs'\<rparr>) of
        (Some e, w') \<Rightarrow> (Some e, w')
      | (None, w') \<Rightarrow> print sink (DescriptionLine (a_description a)) w')))"

definition except_handler :: "'fs sink \<Rightarrow> asset \<Rightarrow> exn \<Rightarrow> 'fs world \<Rightarrow> exn option \<times> 'fs world" where
  \<comment> \<open>lines 218 and 219: an exception of these prints is caught by nothing\<close>
  "except_handler sink a e w =
     (case print sink (FailedLine (a_path a) (a_name a)) w of
        (Some e', w') \<Rightarrow> (Some e', w')
      | (None, w') \<Rightarrow> print sink (ErrorLine e) w')"

definition run_asset :: "'fs sink \<Rightarrow> string list \<Rightarrow> asset \<Rightarrow> 'fs world \<Rightarrow> exn option \<times> 'fs world" where
  \<comment> \<open>one iteration, \<^verbatim>\<open>try: ... except Exception as e: ...\<close>; the result is the exception
      that leaves the iteration, if any\<close>
  "run_asset sink base a w =
     (case try_body sink base a w of
        (None, w') \<Rightarrow> (None, w')
      | (Some e, w') \<Rightarrow> except_handler sink a e w')"

fun asset_loop ::
    "'fs sink \<Rightarrow> string list \<Rightarrow> asset list \<Rightarrow> 'fs world \<Rightarrow> exn option \<times> 'fs world" where
  "asset_loop sink base [] w = (None, w)"
| "asset_loop sink base (a # as) w =
     (case run_asset sink base a w of
        (Some e, w') \<Rightarrow> (Some e, w')
      | (None, w') \<Rightarrow> asset_loop sink base as w')"

definition assets ::
    "(rat \<Rightarrow> rat) \<Rightarrow> (nat \<times> nat \<Rightarrow> 8 word) \<Rightarrow> ((nat \<times> nat \<Rightarrow> 8 word) \<Rightarrow> nat \<times> nat \<Rightarrow> 8 word)
      \<Rightarrow> asset list" where
  "assets pw noise blur =
     [\<lparr>a_name = ''purple-gradient.png'', a_path = ''textures'',
       a_generator = generate_purple_gradient,
       a_description = ''Purple gradient texture for scene theming''\<rparr>,
      \<lparr>a_name = ''noise.png'', a_path = ''textures'',
       a_generator = generate_noise_texture noise blur,
       a_description = ''Noise texture for particle displacement''\<rparr>,
      \<lparr>a_name = ''matcap-metallic.png'', a_path = ''textures'',
       a_generator = generate_matcap_texture pw,
       a_description = ''Metallic matcap for reflective surfaces''\<rparr>,
      \<lparr>a_name = ''particle-glow.png'', a_path = ''sprites'',
       a_generator = generate_particle_sprite pw,
       a_description = ''Soft circular particle sprite with glow''\<rparr>,
      \<lparr>a_name = ''particle-soft.png'', a_path = ''sprites'',
       a_generator = generate_soft_particle_sprite pw,
       a_description = ''Extra soft particle sprite for background''\<rparr>]"

definition main ::
    "'fs sink \<Rightarrow> string list \<Rightarrow> (rat \<Rightarrow> rat) \<Rightarrow> (nat \<times> nat \<Rightarrow> 8 word)
      \<Rightarrow> ((nat \<times> nat \<Rightarrow> 8 word) \<Rightarrow> nat \<times> nat \<Rightarrow> 8 word) \<Rightarrow> 'fs world \<Rightarrow> exn option \<times> 'fs world" where
  \<comment> \<open>the first component is the exception that leaves \<^verbatim>\<open>main\<close> uncaught, if any\<close>
  "main sink base pw noise blur w0 =
     (case print sink Banner w0 of
        (Some e, w1) \<Rightarrow> (Some e, w1)
      | (None, w1) \<Rightarrow>
     (case ensure_directories sink base (w_fs w1) of
        (Some e, fs') \<Rightarrow> (Some e, w1\<lparr>w_fs := fs'\<rparr>)
      | (None, fs') \<Rightarrow>
     (case asset_loop sink base (assets pw noise blur) (w1\<lparr>w_fs := fs'\<rparr>) of
        (Some e, w2) \<Rightarrow> (Some e, w2)
      | (None, w2) \<Rightarrow> print sink Complete w2)))"

fun fs_after :: "'fs sink \<Rightarrow> string list \<Rightarrow> asset list \<Rightarrow> 'fs \<Rightarrow> 'fs" where
  \<comment> \<open>the file system once each entry of the list has been attempted in turn, whether
      its attempt failed or not: only \<^verbatim>\<open>img.save\<close> touches it\<close>
  "fs_after sink base [] fs = fs"
| "fs_after sink base (a # as) fs =
     fs_after sink base as
       (case a_generator a of
          Inl e \<Rightarrow> fs
        | Inr img \<Rightarrow> snd (sink_save sink img (OUTPUT_DIR base @ [a_path a, a_name a]) fs))"

definition entry_lines :: "'fs sink \<Rightarrow> string list \<Rightarrow> asset \<Rightarrow> 'fs \<Rightarrow> out_line list" where
  \<comment> \<open>what a run that goes on to the next entry prints for one entry attempted in \<open>fs\<close>\<close>
  "entry_lines sink base a fs =
     (case a_generator a of
        Inl e \<Rightarrow> [FailedLine (a_path a) (a_name a), ErrorLine e]
      | Inr img \<Rightarrow>
     (case fst (sink_save sink img (OUTPUT_DIR base @ [a_path a, a_name a]) fs) of
        Some e \<Rightarrow> [FailedLine (a_path a) (a_name a), ErrorLine e]
      | None \<Rightarrow>
     (case sink_print sink (GeneratedLine (a_path a) (a_name a)) of
        Some e \<Rightarrow> [FailedLine (a_path a) (a_name a), ErrorLine e]
      | None \<Rightarrow>
     (case sink_print sink (DescriptionLine (a_description a)) of
        Some e \<Rightarrow> [GeneratedLine (a_path a) (a_name a),
                    FailedLine (a_path a) (a_name a), ErrorLine e]
      | None \<Rightarrow> [GeneratedLine (a_path a) (a_name a),
                  DescriptionLine (a_description a)]))))"

definition readonly_sink :: "unit sink" where
  \<comment> \<open>a read-only destination: every directory creation and every write raises\<close>
  "readonly_sink =
     \<lparr>sink_mkdir = (\<lambda>p fs. (Some (OSError ''Read-only file system''), fs)),
      sink_save = (\<lambda>img p fs. (Some (OSError ''Read-only file system''), fs)),
      sink_print = (\<lambda>txt. None)\<rparr>"

definition flaky_sink :: "string list list sink" where
  \<comment> \<open>a writable destination that records the saved paths and refuses \<^verbatim>\<open>noise.png\<close>\<close>
  "flaky_sink =
     \<lparr>sink_mkdir = (\<lambda>p fs. (None, fs)),
      sink_save = (\<lambda>img p fs. if last p = ''noise.png''
         then (Some (OSError ''No space left on device''), fs) else (None, fs @ [p])),
      sink_print = (\<lambda>txt. None)\<rparr>"

definition ascii_sink :: "string list list sink" where
  \<comment> \<open>a full disk behind a stdout that cannot encode the marks U+2713 and U+2717\<close>
  "ascii_sink =
     \<lparr>sink_mkdir = (\<lambda>p fs. (None, fs)),
      sink_save = (\<lambda>img p fs. (Some (OSError ''No space left on device''), fs)),
      sink_print = (\<lambda>txt. case txt of
          GeneratedLine p n \<Rightarrow> Some UnicodeEncodeError
        | FailedLine p n \<Rightarrow> Some UnicodeEncodeError
        | _ \<Rightarrow> None)\<rparr>"

definition zero_pow :: "rat \<Rightarrow> rat" where
  \<comment> \<open>a degenerate \<^verbatim>\<open>pow\<close>: with it the matcap generator divides by zero\<close>
  "zero_pow x = 0"

definition blank_noise :: "nat \<times> nat \<Rightarrow> 8 word" where
  "blank_noise xy = 0"

definition no_blur :: "(nat \<times> nat \<Rightarrow> 8 word) \<Rightarrow> nat \<times> nat \<Rightarrow> 8 word" where
  "no_blur band = band"


section \<open>Properties of the rounding\<close>

lemma rne_of_int: "rne (of_int n) = n"
  by (simp add: rne_def)

lemma rne_floor_bounds: "\<lfloor>x\<rfloor> \<le> rne x \<and> rne x \<le> \<lfloor>x\<rfloor> + 1"
  by (simp add: rne_def Let_def)

lemma rne_mono:
  assumes "x \<le> y"
  shows "rne x \<le> rne y"
proof (cases "\<lfloor>x\<rfloor> = \<lfloor>y\<rfloor>")
  case True
  with assms show ?thesis
    by (auto simp: rne_def Let_def)
next
  case False
  with assms have "\<lfloor>x\<rfloor> + 1 \<le> \<lfloor>y\<rfloor>"
    using floor_mono [of x y] by linarith
  with rne_floor_bounds [of x] rne_floor_bounds [of y] show ?thesis
    by linarith
qed

lemma rne_minus: "rne (- x) = - rne x"
proof (cases "x \<in> \<int>")
  case True
  then obtain n where "x = of_int n" by (auto elim: Ints_cases)
  then show ?thesis
    by (metis of_int_minus rne_of_int)
next
  case False
  then have "x \<noteq> of_int \<lfloor>x\<rfloor>"
    by (metis Ints_of_int)
  then have fl: "\<lfloor>- x\<rfloor> = - \<lfloor>x\<rfloor> - 1"
    by (simp add: floor_minus ceiling_altdef)
  have d: "x - of_int \<lfloor>x\<rfloor> < 1" "0 \<le> x - of_int \<lfloor>x\<rfloor>"
    by linarith+
  show ?thesis
    unfolding rne_def Let_def fl using d
    by (auto simp: algebra_simps)
qed

lemma pow2_pos: "0 < (2::rat) powi k"
  by simp

lemma pow2_le: "a \<le> b \<Longrightarrow> (2::rat) powi a \<le> 2 powi b"
  by (simp add: power_int_increasing)

lemma pow2_less_cancel:
  assumes "(2::rat) powi a < 2 powi b"
  shows "a < b"
proof (rule ccontr)
  assume "\<not> a < b"
  then have "(2::rat) powi b \<le> 2 powi a"
    by (intro pow2_le) simp
  with assms show False by simp
qed

lemma ilog2_bounds:
  assumes "x \<noteq> 0"
  shows "2 powi ilog2 x \<le> \<bar>x\<bar>" and "\<bar>x\<bar> < 2 powi (ilog2 x + 1)"
proof -
  obtain p q where pq: "quotient_of \<bar>x\<bar> = (p, q)"
    by (cases "quotient_of \<bar>x\<bar>")
  then have q: "0 < q" and x: "\<bar>x\<bar> = of_int p / of_int q"
    using quotient_of_denom_pos quotient_of_div by blast+
  have "0 < \<bar>x\<bar>" using assms by simp
  then have "0 < rat_of_int p"
    unfolding x using q by (simp add: zero_less_divide_iff)
  then have p: "0 < p" by simp
  define bp bq where "bp = bitlen p" and "bq = bitlen q"
  have bp: "(2::rat) powi (bp - 1) \<le> of_int p" "of_int p < (2::rat) powi bp"
   and bq: "(2::rat) powi (bq - 1) \<le> of_int q" "of_int q < (2::rat) powi bq"
  proof -
    have "1 \<le> bp" "1 \<le> bq"
      using p q bitlen_eq_zero_iff [of p] bitlen_eq_zero_iff [of q]
        bitlen_nonneg [of p] bitlen_nonneg [of q]
      unfolding bp_def bq_def by linarith+
    then have e: "(2::rat) powi (bp - 1) = 2 ^ nat (bp - 1)" "(2::rat) powi bp = 2 ^ nat bp"
      "(2::rat) powi (bq - 1) = 2 ^ nat (bq - 1)" "(2::rat) powi bq = 2 ^ nat bq"
      by (simp_all add: power_int_def)
    have "(2::int) ^ nat (bp - 1) \<le> p" "p < 2 ^ nat bp"
      "(2::int) ^ nat (bq - 1) \<le> q" "q < 2 ^ nat bq"
      using bitlen_bounds [OF p] bitlen_bounds [OF q] unfolding bp_def bq_def by simp_all
    then have "rat_of_int (2 ^ nat (bp - 1)) \<le> of_int p" "rat_of_int p < of_int (2 ^ nat bp)"
      "rat_of_int (2 ^ nat (bq - 1)) \<le> of_int q" "rat_of_int q < of_int (2 ^ nat bq)"
      by (simp_all only: of_int_le_iff of_int_less_iff)
    then show "(2::rat) powi (bp - 1) \<le> of_int p" "of_int p < (2::rat) powi bp"
      "(2::rat) powi (bq - 1) \<le> of_int q" "of_int q < (2::rat) powi bq"
      unfolding e by simp_all
  qed
  have qpos: "0 < rat_of_int q" using q by simp
  have lo: "(2::rat) powi (bp - bq - 1) < \<bar>x\<bar>"
  proof -
    have "(2::rat) powi (bp - bq - 1) * of_int q < 2 powi (bp - bq - 1) * 2 powi bq"
      using bq(2) by (simp add: mult_strict_left_mono)
    also have "\<dots> = 2 powi (bp - 1)"
      by (simp add: power_int_add [symmetric])
    also have "\<dots> \<le> of_int p" by (rule bp(1))
    finally show ?thesis
      unfolding x using qpos by (simp add: pos_less_divide_eq)
  qed
  have hi: "\<bar>x\<bar> < (2::rat) powi (bp - bq + 1)"
  proof -
    have "of_int p < (2::rat) powi bp" by (rule bp(2))
    also have "\<dots> = 2 powi (bp - bq + 1) * 2 powi (bq - 1)"
      by (simp add: power_int_add [symmetric])
    also have "\<dots> \<le> 2 powi (bp - bq + 1) * of_int q"
      using bq(1) by (simp add: mult_left_mono)
    finally show ?thesis
      unfolding x using qpos by (simp add: pos_divide_less_eq)
  qed
  have il: "ilog2 x = (if 2 powi (bp - bq) \<le> \<bar>x\<bar> then bp - bq else bp - bq - 1)"
    by (simp add: ilog2_def pq Let_def bp_def bq_def)
  show "2 powi ilog2 x \<le> \<bar>x\<bar>"
    using lo by (simp add: il)
  show "\<bar>x\<bar> < 2 powi (ilog2 x + 1)"
    using hi by (auto simp: il not_le)
qed

lemma ilog2_mono:
  assumes "x \<noteq> 0" and "\<bar>x\<bar> \<le> \<bar>y\<bar>"
  shows "ilog2 x \<le> ilog2 y"
proof (rule ccontr)
  assume "\<not> ilog2 x \<le> ilog2 y"
  then have "ilog2 y + 1 \<le> ilog2 x" by simp
  then have "(2::rat) powi (ilog2 y + 1) \<le> 2 powi ilog2 x"
    by (rule pow2_le)
  moreover have "y \<noteq> 0" using assms by auto
  ultimately show False
    using ilog2_bounds(1) [OF assms(1)] ilog2_bounds(2) [of y] assms(2) by linarith
qed

lemma round_double_zero: "round_double 0 = 0"
  by (simp add: round_double_def)

lemma round_double_minus: "round_double (- x) = - round_double x"
proof -
  have "ilog2 (- x) = ilog2 x"
    by (simp add: ilog2_def)
  then show ?thesis
    by (simp add: round_double_def ulp_exp_def rne_minus)
qed

lemma round_double_pos_bounds:
  assumes "0 < x"
  shows "round_double x \<le> 2 powi (ulp_exp x + 53)"
    and "- 1022 \<le> ilog2 x \<Longrightarrow> 2 powi (ulp_exp x + 52) \<le> round_double x"
    and "0 \<le> round_double x"
proof -
  let ?u = "(2::rat) powi ulp_exp x"
  have u: "0 < ?u" by simp
  have x: "x \<noteq> 0" "\<bar>x\<bar> = x" using assms by auto
  have "x < 2 powi (ilog2 x + 1)"
    using ilog2_bounds(2) [OF x(1)] x(2) by simp
  also have "\<dots> \<le> 2 powi (ulp_exp x + 53)"
    by (rule pow2_le) (simp add: ulp_exp_def)
  finally have lt: "x < 2 powi (ulp_exp x + 53)" .
  have split: "(2::rat) powi (ulp_exp x + 53) = of_int (2 ^ 53) * ?u"
    "(2::rat) powi (ulp_exp x + 52) = of_int (2 ^ 52) * ?u"
    by (simp_all add: power_int_add)
  have "x / ?u \<le> of_int (2 ^ 53)"
    using lt u unfolding split by (simp add: pos_divide_le_eq)
  then have "rne (x / ?u) \<le> 2 ^ 53"
    using rne_mono rne_of_int by metis
  then have "rat_of_int (rne (x / ?u)) \<le> of_int (2 ^ 53)"
    by (simp only: of_int_le_iff)
  then have "of_int (rne (x / ?u)) * ?u \<le> of_int (2 ^ 53) * ?u"
    using u by (simp only: mult_le_cancel_right_pos)
  then show "round_double x \<le> 2 powi (ulp_exp x + 53)"
    unfolding split round_double_def using x by simp
  have "rne 0 \<le> rne (x / ?u)"
    by (rule rne_mono) (use assms u in simp)
  then have "0 \<le> rne (x / ?u)"
    using rne_of_int [of 0] by simp
  then show "0 \<le> round_double x"
    unfolding round_double_def using x by simp
  show "2 powi (ulp_exp x + 52) \<le> round_double x" if "- 1022 \<le> ilog2 x"
  proof -
    from that have "ulp_exp x + 52 = ilog2 x" by (simp add: ulp_exp_def)
    then have "2 powi (ulp_exp x + 52) \<le> x"
      using ilog2_bounds(1) [OF x(1)] x(2) by simp
    then have "of_int (2 ^ 52) \<le> x / ?u"
      using u unfolding split by (simp add: pos_le_divide_eq)
    then have "2 ^ 52 \<le> rne (x / ?u)"
      using rne_mono rne_of_int by metis
    then have "rat_of_int (2 ^ 52) \<le> of_int (rne (x / ?u))"
      by (simp only: of_int_le_iff)
    then have "of_int (2 ^ 52) * ?u \<le> of_int (rne (x / ?u)) * ?u"
      using u by (simp only: mult_le_cancel_right_pos)
    then show ?thesis
      unfolding split round_double_def using x by simp
  qed
qed

lemma round_double_mono_pos:
  assumes "0 < x" and "x \<le> y"
  shows "round_double x \<le> round_double y"
proof -
  have y: "0 < y" using assms by simp
  have xy: "x \<noteq> 0" "y \<noteq> 0" using assms by auto
  have le: "ulp_exp x \<le> ulp_exp y"
    using ilog2_mono [of x y] assms by (simp add: ulp_exp_def)
  show ?thesis
  proof (cases "ulp_exp x = ulp_exp y")
    case True
    have "x / 2 powi ulp_exp y \<le> y / 2 powi ulp_exp y"
      using assms(2) by (simp add: divide_right_mono)
    then have "rne (x / 2 powi ulp_exp y) \<le> rne (y / 2 powi ulp_exp y)"
      by (rule rne_mono)
    then have "rat_of_int (rne (x / 2 powi ulp_exp y)) \<le> of_int (rne (y / 2 powi ulp_exp y))"
      by (simp only: of_int_le_iff)
    then show ?thesis
      unfolding round_double_def True using xy by (simp add: mult_right_mono)
  next
    case False
    with le have lt: "ulp_exp x + 1 \<le> ulp_exp y" by simp
    then have "- 1022 \<le> ilog2 y"
      by (simp add: ulp_exp_def max_def split: if_splits)
    then have "2 powi (ulp_exp y + 52) \<le> round_double y"
      by (rule round_double_pos_bounds(2) [OF y])
    moreover have "(2::rat) powi (ulp_exp x + 53) \<le> 2 powi (ulp_exp y + 52)"
      by (rule pow2_le) (use lt in simp)
    ultimately show ?thesis
      using round_double_pos_bounds(1) [OF assms(1)] by linarith
  qed
qed

lemma round_double_nonneg: "0 \<le> x \<Longrightarrow> 0 \<le> round_double x"
  using round_double_pos_bounds(3) [of x] by (cases "x = 0") (simp_all add: round_double_zero)

lemma round_double_nonpos: "x \<le> 0 \<Longrightarrow> round_double x \<le> 0"
  using round_double_nonneg [of "- x"] by (simp add: round_double_minus)

lemma round_double_mono:
  assumes "x \<le> y"
  shows "round_double x \<le> round_double y"
proof -
  consider "0 < x" | "x \<le> 0" "0 \<le> y" | "y < 0" by linarith
  then show ?thesis
  proof cases
    case 1
    then show ?thesis using assms by (rule round_double_mono_pos)
  next
    case 2
    then show ?thesis
      using round_double_nonpos [of x] round_double_nonneg [of y] by linarith
  next
    case 3
    then have "round_double (- y) \<le> round_double (- x)"
      using assms by (intro round_double_mono_pos) simp_all
    then show ?thesis by (simp add: round_double_minus)
  qed
qed

lemma round_double_exact:
  assumes m: "\<bar>m\<bar> < 2 ^ 53" and k: "- 1074 \<le> k"
  shows "round_double (of_int m * 2 powi k) = of_int m * 2 powi k"
proof (cases "m = 0")
  case True
  then show ?thesis by (simp add: round_double_zero)
next
  case False
  let ?x = "rat_of_int m * 2 powi k"
  have x: "?x \<noteq> 0" using False by simp
  have ax: "\<bar>?x\<bar> = of_int \<bar>m\<bar> * 2 powi k"
    by (simp add: abs_mult)
  have "rat_of_int \<bar>m\<bar> < of_int (2 ^ 53)"
    using m by (simp only: of_int_less_iff)
  then have "\<bar>?x\<bar> < 2 ^ 53 * 2 powi k"
    unfolding ax by simp
  also have "\<dots> = 2 powi (k + 53)"
    by (simp add: power_int_add)
  finally have "2 powi ilog2 ?x < (2::rat) powi (k + 53)"
    using ilog2_bounds(1) [OF x] by linarith
  then have "ilog2 ?x < k + 53"
    by (rule pow2_less_cancel)
  then have le: "ulp_exp ?x \<le> k"
    using k by (simp add: ulp_exp_def)
  define u where "u = ulp_exp ?x"
  define j where "j = nat (k - u)"
  have kj: "k = u + int j"
    using le by (simp add: j_def u_def)
  have pk: "(2::rat) powi k = 2 powi u * 2 ^ j"
    by (subst kj) (simp add: power_int_add)
  have "rat_of_int m * (2 powi u * 2 ^ j) / 2 powi u = of_int (m * 2 ^ j)"
    by simp
  then have q: "?x / 2 powi u = of_int (m * 2 ^ j)"
    by (simp only: pk)
  have "round_double ?x = of_int (rne (?x / 2 powi u)) * 2 powi u"
    using x by (simp only: round_double_def u_def if_False)
  also have "\<dots> = of_int (m * 2 ^ j) * 2 powi u"
    by (simp only: q rne_of_int)
  also have "\<dots> = of_int m * (2 powi u * 2 ^ j)"
    by simp
  finally show ?thesis
    by (simp only: pk)
qed

lemma round_double_int:
  assumes "\<bar>m\<bar> < 2 ^ 53"
  shows "round_double (of_int m) = of_int m"
  using round_double_exact [OF assms, of 0] by simp

lemma round_double_256:
  assumes "\<bar>m\<bar> < 2 ^ 53"
  shows "round_double (of_int m / 256) = of_int m / 256"
proof -
  have "(2::rat) powi (- 8) = 1 / 256"
    by simp
  then show ?thesis
    using round_double_exact [OF assms, of "- 8"] by simp
qed

lemma float_of_int_small: "\<bar>m\<bar> < 2 ^ 53 \<Longrightarrow> float_of_int m = of_int m"
  by (simp add: float_of_int_def round_double_int)

lemma fsub_mono: "x \<le> x' \<Longrightarrow> y' \<le> y \<Longrightarrow> fsub x y \<le> fsub x' y'"
  unfolding fsub_def by (rule round_double_mono) simp

lemma fadd_mono: "x \<le> x' \<Longrightarrow> y \<le> y' \<Longrightarrow> fadd x y \<le> fadd x' y'"
  unfolding fadd_def by (rule round_double_mono) simp

lemma fmul_mono_left: "0 \<le> c \<Longrightarrow> x \<le> y \<Longrightarrow> fmul c x \<le> fmul c y"
  unfolding fmul_def by (rule round_double_mono) (simp add: mult_left_mono)

lemma fmul_mono_right: "0 \<le> c \<Longrightarrow> x \<le> y \<Longrightarrow> fmul x c \<le> fmul y c"
  unfolding fmul_def by (rule round_double_mono) (simp add: mult_right_mono)

lemma fdiv_mono: "0 \<le> c \<Longrightarrow> x \<le> y \<Longrightarrow> fdiv x c \<le> fdiv y c"
  unfolding fdiv_def by (rule round_double_mono) (simp add: divide_right_mono)

lemma py_int_mono:
  assumes "x \<le> y"
  shows "py_int x \<le> py_int y"
proof -
  consider "0 \<le> x" | "x < 0" "0 \<le> y" | "y < 0" by linarith
  then show ?thesis
  proof cases
    case 1
    then show ?thesis
      using assms floor_mono [of x y] by (simp add: py_int_def)
  next
    case 2
    then have "\<lceil>x\<rceil> \<le> 0" "0 \<le> \<lfloor>y\<rfloor>"
      by (simp_all add: ceiling_le_zero)
    then have "\<lceil>x\<rceil> \<le> \<lfloor>y\<rfloor>"
      by (rule order_trans)
    then show ?thesis
      using 2 by (simp add: py_int_def)
  next
    case 3
    then show ?thesis
      using assms ceiling_mono [of x y] by (simp add: py_int_def)
  qed
qed


section \<open>The pixel loops\<close>

lemma for_each_row:
  assumes "im_size img = (w, h)" and "y < h" and "\<forall>x\<in>set xs. x < w"
    and "\<And>x im. x \<in> set xs \<Longrightarrow> im_size im = (w, h) \<Longrightarrow> body x im = putpixel im (x, y) (g x)"
  shows "for_each xs body img =
    Inr (img\<lparr>im_px := \<lambda>p. if snd p = y \<and> fst p \<in> set xs then g (fst p) else im_px img p\<rparr>)"
  using assms
proof (induction xs arbitrary: img)
  case Nil
  then show ?case by simp
next
  case (Cons x xs)
  let ?im = "img\<lparr>im_px := (im_px img)((x, y) := g x)\<rparr>"
  have step: "body x img = Inr ?im"
    using Cons.prems by (simp add: putpixel_def)
  have "for_each xs body ?im =
    Inr (?im\<lparr>im_px := \<lambda>p. if snd p = y \<and> fst p \<in> set xs then g (fst p) else im_px ?im p\<rparr>)"
    using Cons.prems by (intro Cons.IH) simp_all
  then show ?case
    by (simp add: step fun_eq_iff)
qed

lemma for_each_rows:
  assumes "im_size img = (w, h)"
    and "\<And>y im. y \<in> set ys \<Longrightarrow> im_size im = (w, h) \<Longrightarrow>
      row y im = Inr (im\<lparr>im_px := \<lambda>p. if snd p = y \<and> fst p < w then g p else im_px im p\<rparr>)"
  shows "for_each ys row img =
    Inr (img\<lparr>im_px := \<lambda>p. if snd p \<in> set ys \<and> fst p < w then g p else im_px img p\<rparr>)"
  using assms
proof (induction ys arbitrary: img)
  case Nil
  then show ?case by simp
next
  case (Cons y ys)
  let ?im = "img\<lparr>im_px := \<lambda>p. if snd p = y \<and> fst p < w then g p else im_px img p\<rparr>"
  have step: "row y img = Inr ?im"
    using Cons.prems by simp
  have "for_each ys row ?im =
    Inr (?im\<lparr>im_px := \<lambda>p. if snd p \<in> set ys \<and> fst p < w then g p else im_px ?im p\<rparr>)"
    using Cons.prems by (intro Cons.IH) simp_all
  then show ?case
    by (simp add: step fun_eq_iff)
qed

lemma pixel_loops:
  assumes "\<And>x y. x < w \<Longrightarrow> y < h \<Longrightarrow> f x y = Inr (g (x, y))"
  shows "for_each [0..<h] (\<lambda>y img. for_each [0..<w] (\<lambda>x img.
           bnd (f x y) (\<lambda>c. putpixel img (x, y) c)) img) (Image_new m (w, h) c0) =
         Inr \<lparr>im_mode = m, im_size = (w, h),
              im_px = \<lambda>p. if fst p < w \<and> snd p < h then g p else c0\<rparr>"
proof -
  let ?row = "\<lambda>y img. for_each [0..<w] (\<lambda>x img. bnd (f x y) (\<lambda>c. putpixel img (x, y) c)) img"
  have row: "?row y im =
      Inr (im\<lparr>im_px := \<lambda>p. if snd p = y \<and> fst p < w then g p else im_px im p\<rparr>)"
    if "y \<in> set [0..<h]" and "im_size im = (w, h)" for y im
  proof -
    have "?row y im = Inr (im\<lparr>im_px := \<lambda>p. if snd p = y \<and> fst p \<in> set [0..<w]
        then g (fst p, y) else im_px im p\<rparr>)"
      using that assms by (intro for_each_row [where w = w and h = h]) (simp_all add: bnd_def)
    also have "(\<lambda>p. if snd p = y \<and> fst p \<in> set [0..<w] then g (fst p, y) else im_px im p) =
        (\<lambda>p. if snd p = y \<and> fst p < w then g p else im_px im p)"
      by (auto simp: fun_eq_iff)
    finally show ?thesis .
  qed
  have "for_each [0..<h] ?row (Image_new m (w, h) c0) =
      Inr ((Image_new m (w, h) c0)\<lparr>im_px := \<lambda>p. if snd p \<in> set [0..<h] \<and> fst p < w then g p
        else im_px (Image_new m (w, h) c0) p\<rparr>)"
    by (rule for_each_rows [where w = w and h = h, OF _ row]) (simp_all add: Image_new_def)
  then show ?thesis
    by (simp add: Image_new_def fun_eq_iff conj_commute)
qed


section \<open>The gradient rows\<close>

lemma gradient_stops_val:
  "gradient_stops = Inr [(26, 0, 51), (74, 0, 128), (139, 0, 255), (213, 128, 255)]"
  by (simp add: gradient_stops_def hex_to_rgb_def int16_def slice_def hex_digit_def bnd_def)

lemma gradient_segment_exact:
  assumes "y < 256"
  shows "gradient_segment 4 256 y = of_int (3 * int y) / 256"
proof -
  have a: "round_double (of_nat y / of_nat 256) = of_int (int y) / 256"
    using assms round_double_256 [of "int y"] by simp
  have b: "float_of_int (int 4 - 1) = 3"
    using float_of_int_small [of 3] by simp
  have "round_double (of_int (3 * int y) / 256) = of_int (3 * int y) / 256"
    using assms by (intro round_double_256) simp
  then show ?thesis
    unfolding gradient_segment_def a b fmul_def by (simp add: algebra_simps)
qed

lemma py_int_div:
  assumes "0 \<le> a" and "0 < b"
  shows "py_int (of_int a / of_int b) = a div b"
  using assms by (simp add: py_int_def floor_divide_of_int_eq)

lemma gradient_idx_exact:
  assumes "y < 256"
  shows "gradient_idx 4 256 y = (3 * int y) div 256"
  using py_int_div [of "3 * int y" 256]
  by (simp add: gradient_idx_def gradient_segment_exact [OF assms])

lemma gradient_idx_bounds:
  assumes "y < 256"
  shows "0 \<le> gradient_idx 4 256 y" and "gradient_idx 4 256 y \<le> 2"
  using assms unfolding gradient_idx_exact [OF assms] by simp_all

lemma interpolate_returns:
  assumes "0 \<le> idx" and "idx + 1 < int (length colors)"
  shows "\<exists>c. interpolate colors idx segment = Inr c"
  using assms
  by (simp add: interpolate_def py_index_def bnd_def Let_def split: prod.splits)

lemma gradient_color_interpolates:
  assumes "y < 256" and "length colors = 4"
  shows "gradient_color colors 256 y =
    interpolate colors (gradient_idx 4 256 y) (gradient_segment 4 256 y)"
  using gradient_idx_bounds [OF assms(1)] assms(2)
  by (simp add: gradient_color_def Let_def gradient_idx_def)

lemma gradient_color_returns:
  assumes "y < 256" and "length colors = 4"
  shows "\<exists>c. gradient_color colors 256 y = Inr c"
  unfolding gradient_color_interpolates [OF assms]
  using gradient_idx_bounds [OF assms(1)] assms(2) by (intro interpolate_returns) simp_all

lemma gradient_color_row:
  assumes "y < 256"
  shows "gradient_color [(26, 0, 51), (74, 0, 128), (139, 0, 255), (213, 128, 255)] 256 y = Inr (gradient_row y)"
  using gradient_color_returns [OF assms, of "[(26, 0, 51), (74, 0, 128), (139, 0, 255), (213, 128, 255)]"]
  by (auto simp: gradient_row_def)

lemma generate_purple_gradient_image:
  "generate_purple_gradient = Inr \<lparr>im_mode = ''RGB'', im_size = (256, 256),
     im_px = \<lambda>p. if fst p < 256 \<and> snd p < 256 then gradient_row (snd p) else RGB 0 0 0\<rparr>"
proof -
  let ?stops = "[(26, 0, 51), (74, 0, 128), (139, 0, 255), (213, 128, 255)]"
  let ?row = "\<lambda>y img. bnd (gradient_color ?stops 256 y) (\<lambda>color.
            for_each [0..<256] (\<lambda>x img. putpixel img (x, y) color) img)"
  have row: "?row y im =
      Inr (im\<lparr>im_px := \<lambda>p. if snd p = y \<and> fst p < 256 then gradient_row (snd p) else im_px im p\<rparr>)"
    if "y \<in> set [0..<256]" and "im_size im = (256, 256)" for y im
  proof -
    have y: "y < 256" using that by simp
    have "for_each [0..<256] (\<lambda>x img. putpixel img (x, y) (gradient_row y)) im =
      Inr (im\<lparr>im_px := \<lambda>p. if snd p = y \<and> fst p \<in> set [0..<256]
        then gradient_row y else im_px im p\<rparr>)"
      using that y by (intro for_each_row [where w = 256 and h = 256]) simp_all
    also have "(\<lambda>p. if snd p = y \<and> fst p \<in> set [0..<256] then gradient_row y else im_px im p) =
        (\<lambda>p. if snd p = y \<and> fst p < 256 then gradient_row (snd p) else im_px im p)"
      by (auto simp: fun_eq_iff)
    finally show ?thesis
      by (simp add: gradient_color_row [OF y] bnd_def)
  qed
  have "for_each [0..<256] ?row (Image_new ''RGB'' (256, 256) (RGB 0 0 0)) =
      Inr ((Image_new ''RGB'' (256, 256) (RGB 0 0 0))\<lparr>im_px := \<lambda>p.
        if snd p \<in> set [0..<256] \<and> fst p < 256 then gradient_row (snd p)
        else im_px (Image_new ''RGB'' (256, 256) (RGB 0 0 0)) p\<rparr>)"
    by (rule for_each_rows [where w = 256 and h = 256, OF _ row]) (simp_all add: Image_new_def)
  then show ?thesis
    by (simp add: generate_purple_gradient_def gradient_stops_val bnd_def Image_new_def
        fun_eq_iff conj_commute)
qed

lemma lerp_channel_exact:
  assumes "0 \<le> a" "a \<le> 255" "0 \<le> b" "b \<le> 255" "0 \<le> j" "j < 256"
  shows "lerp_channel a b (of_int j / 256) = (a * (256 - j) + b * j) div 256"
proof -
  have ba: "\<bar>b - a\<bar> \<le> 255" using assms by linarith
  have "\<bar>(b - a) * j\<bar> \<le> 255 * 256"
    unfolding abs_mult using ba assms by (intro mult_mono) simp_all
  then have m1: "\<bar>(b - a) * j\<bar> < 2 ^ 53" by simp
  have nn: "0 \<le> a * (256 - j) + b * j"
    using assms by simp
  have "a * (256 - j) + b * j \<le> 255 * (256 - j) + 255 * j"
    using assms by (intro add_mono mult_right_mono) simp_all
  then have m2: "\<bar>a * (256 - j) + b * j\<bar> < 2 ^ 53"
    using nn by simp
  have fa: "float_of_int a = of_int a" and fb: "float_of_int (b - a) = of_int (b - a)"
    using assms ba by (simp_all add: float_of_int_small)
  have "fmul (of_int (b - a)) (of_int j / 256) = round_double (of_int ((b - a) * j) / 256)"
    by (simp add: fmul_def)
  also have "\<dots> = of_int ((b - a) * j) / 256"
    using m1 by (rule round_double_256)
  finally have mul: "fmul (of_int (b - a)) (of_int j / 256) = of_int ((b - a) * j) / 256" .
  have "rat_of_int a + of_int ((b - a) * j) / 256 = of_int (a * (256 - j) + b * j) / 256"
    by (simp add: field_simps)
  then have "fadd (of_int a) (of_int ((b - a) * j) / 256) =
      round_double (of_int (a * (256 - j) + b * j) / 256)"
    by (simp only: fadd_def)
  also have "\<dots> = of_int (a * (256 - j) + b * j) / 256"
    using m2 by (rule round_double_256)
  finally have add: "fadd (of_int a) (of_int ((b - a) * j) / 256) =
      of_int (a * (256 - j) + b * j) / 256" .
  show ?thesis
    unfolding lerp_channel_def fa fb mul add
    using py_int_div [OF nn, of 256] by simp
qed

lemma gradient_t_exact:
  assumes "y < 256"
  shows "fsub (gradient_segment 4 256 y) (float_of_int (gradient_idx 4 256 y)) =
    of_int ((3 * int y) mod 256) / 256"
proof -
  define q r where "q = (3 * int y) div 256" and "r = (3 * int y) mod 256"
  have i: "\<bar>q\<bar> < 2 ^ 53"
    using assms by (simp add: q_def)
  have "\<bar>r\<bar> < 2 ^ 53"
    by (simp add: r_def abs_of_nonneg)
  then have rd: "round_double (of_int r / 256) = of_int r / 256"
    by (rule round_double_256)
  have "3 * int y = 256 * q + r"
    by (simp add: q_def r_def)
  then have "rat_of_int (3 * int y) = 256 * of_int q + of_int r"
    by (metis of_int_add of_int_mult of_int_numeral)
  then have eq: "rat_of_int (3 * int y) / 256 - of_int q = of_int r / 256"
    by (simp add: field_simps)
  show ?thesis
    unfolding gradient_segment_exact [OF assms] gradient_idx_exact [OF assms]
      q_def [symmetric] r_def [symmetric] float_of_int_small [OF i] fsub_def eq rd
    by (rule refl)
qed

lemma gradient_row_exact:
  assumes y: "y < 256"
    and i: "(3 * int y) div 256 = i" and j: "(3 * int y) mod 256 = j"
    and c1: "py_index [(26, 0, 51), (74, 0, 128), (139, 0, 255), (213, 128, 255)] i = Inr (r1, g1, b1)"
    and c2: "py_index [(26, 0, 51), (74, 0, 128), (139, 0, 255), (213, 128, 255)] (i + 1) = Inr (r2, g2, b2)"
    and r: "lerp_channel r1 r2 (of_int j / 256) = r"
    and g: "lerp_channel g1 g2 (of_int j / 256) = g"
    and b: "lerp_channel b1 b2 (of_int j / 256) = b"
  shows "gradient_row y = RGB r g b"
proof -
  have idx: "gradient_idx 4 256 y = i"
    using gradient_idx_exact [OF y] i by simp
  have t: "fsub (gradient_segment 4 256 y) (float_of_int i) = of_int j / 256"
    using gradient_t_exact [OF y] idx j by simp
  have "gradient_color [(26, 0, 51), (74, 0, 128), (139, 0, 255), (213, 128, 255)] 256 y =
      Inr (RGB r g b)"
    unfolding gradient_color_interpolates [OF y, of "[(26, 0, 51), (74, 0, 128), (139, 0, 255), (213, 128, 255)]", simplified]
      idx interpolate_def Let_def t c1 c2 bnd_def
    by (simp add: r g b)
  then show ?thesis
    by (simp add: gradient_row_def)
qed

lemma lerp_channel_eval:
  assumes "t = of_int j / 256" and "r = (a * (256 - j) + b * j) div 256"
    and "0 \<le> a" "a \<le> 255" "0 \<le> b" "b \<le> 255" "0 \<le> j" "j < 256"
  shows "lerp_channel a b t = r"
  unfolding assms(1,2) using assms(3-) by (rule lerp_channel_exact)

lemma gradient_row_0: "gradient_row 0 = RGB 26 0 51"
  by (rule gradient_row_exact [where i = 0 and j = 0])
    (simp_all add: py_index_def, (rule lerp_channel_eval [where j = 0]; simp)+)

lemma gradient_row_255: "gradient_row 255 = RGB 212 126 255"
  by (rule gradient_row_exact [where i = 2 and j = 253])
    (simp_all add: py_index_def, (rule lerp_channel_eval [where j = 253]; simp)+)


section \<open>The float literals\<close>

lemma flit_2: "flit (2/10) = 3602879701896397 / 18014398509481984" by code_simp
lemma flit_3: "flit (3/10) = 5404319552844595 / 18014398509481984" by code_simp
lemma flit_4: "flit (4/10) = 3602879701896397 / 9007199254740992" by code_simp
lemma flit_5: "flit (5/10) = 1 / 2" by code_simp
lemma flit_6: "flit (6/10) = 5404319552844595 / 9007199254740992" by code_simp
lemma flit_7: "flit (7/10) = 3152519739159347 / 4503599627370496" by code_simp
lemma flit_8: "flit (8/10) = 3602879701896397 / 4503599627370496" by code_simp
lemma flit_1: "flit 1 = 1" by code_simp


lemma literal_divisors_nonzero:
  "flit (3/10) \<noteq> 0 \<and> flit (4/10) \<noteq> 0 \<and> flit (5/10) \<noteq> 0"
  unfolding flit_3 flit_4 flit_5 by simp


section \<open>The gradient buffer\<close>

lemma gradient_getpixel:
  assumes "x < 256" and "y < 256"
  shows "bnd generate_purple_gradient (\<lambda>img. getpixel img (x, y)) = Inr (gradient_row y)"
  using assms by (simp add: generate_purple_gradient_image bnd_def getpixel_def)

text \<open>
  Claim C1. The first row of the gradient buffer is the first stop, and the last row
  (\<open>y = 255\<close>) is said to be the last stop \<open>(213, 128, 255)\<close>. The generator returns a
  buffer whose row 0 is \<open>(26, 0, 51)\<close>, the first stop, but whose row 255 is
  \<open>(212, 126, 255)\<close>: the position \<open>y / height\<close> stops at \<open>255/256\<close>, so the last row is
  interpolated with weight \<open>253/256\<close> and falls short of the last stop.
\<close>

theorem gradient_last_row_short_of_last_stop:
  "bnd generate_purple_gradient (\<lambda>img. getpixel img (0, 255)) = Inr (RGB 212 126 255)
   \<and> bnd gradient_stops (\<lambda>colors. py_index colors (- 1)) = Inr (213, 128, 255)
   \<and> bnd generate_purple_gradient (\<lambda>img. getpixel img (0, 0)) = Inr (RGB 26 0 51)
   \<and> bnd gradient_stops (\<lambda>colors. py_index colors 0) = Inr (26, 0, 51)"
proof -
  have "bnd gradient_stops (\<lambda>colors. py_index colors (- 1)) = Inr (213, 128, 255)"
    and "bnd gradient_stops (\<lambda>colors. py_index colors 0) = Inr (26, 0, 51)"
    by (simp_all add: gradient_stops_val bnd_def py_index_def)
  then show ?thesis
    by (simp add: gradient_getpixel gradient_row_0 gradient_row_255)
qed

text \<open>
  Claim C8. Horizontal uniformity: the generator returns a buffer, and in every row
  \<open>y\<close> any two columns \<open>x1\<close>, \<open>x2\<close> of the buffer hold the same pixel.
\<close>

theorem gradient_horizontal_uniformity:
  assumes "x1 < 256" and "x2 < 256" and "y < 256"
  shows "\<exists>img c. generate_purple_gradient = Inr img
     \<and> getpixel img (x1, y) = Inr c \<and> getpixel img (x2, y) = Inr c"
  using assms by (simp add: generate_purple_gradient_image getpixel_def)

theorem gradient_horizontal_uniformity_witness:
  "\<exists>img c. generate_purple_gradient = Inr img
     \<and> getpixel img (0, 100) = Inr c \<and> getpixel img (255, 100) = Inr c"
  using gradient_horizontal_uniformity [of 0 255 100] by simp

text \<open>
  Claim C10. The branch that returns the last stop unmodified is never taken: for every
  row \<open>y < 256\<close> the index \<open>idx\<close> is \<open>\<lfloor>(y / 256) * 3\<rfloor>\<close> (the float operations are
  exact here), it is at most 2 and so below \<open>len(colors) - 1 = 3\<close>, and the colour of the
  row is the one the interpolation branch computes.
\<close>

theorem gradient_guard_unreachable:
  assumes "y < 256"
  shows "gradient_idx 4 256 y = \<lfloor>(of_nat y / 256) * (3::rat)\<rfloor>
     \<and> gradient_idx 4 256 y \<le> 2 \<and> gradient_idx 4 256 y < 4 - 1
     \<and> (\<exists>colors. gradient_stops = Inr colors \<and> length colors = 4
          \<and> gradient_color colors 256 y =
              interpolate colors (gradient_idx 4 256 y) (gradient_segment 4 256 y))"
proof -
  have "gradient_idx 4 256 y = \<lfloor>gradient_segment 4 256 y\<rfloor>"
    using gradient_segment_exact [OF assms] by (simp add: gradient_idx_def py_int_def)
  then have "gradient_idx 4 256 y = \<lfloor>(of_nat y / 256) * (3::rat)\<rfloor>"
    using gradient_segment_exact [OF assms] by (simp add: algebra_simps)
  moreover have "gradient_idx 4 256 y \<le> 2"
    by (rule gradient_idx_bounds(2) [OF assms])
  moreover have "gradient_color [(26, 0, 51), (74, 0, 128), (139, 0, 255), (213, 128, 255)] 256 y =
      interpolate [(26, 0, 51), (74, 0, 128), (139, 0, 255), (213, 128, 255)]
        (gradient_idx 4 256 y) (gradient_segment 4 256 y)"
    by (rule gradient_color_interpolates [OF assms]) simp
  ultimately show ?thesis
    by (simp add: gradient_stops_val)
qed

theorem gradient_guard_unreachable_witness:
  "gradient_idx 4 256 255 = \<lfloor>(of_nat 255 / 256) * (3::rat)\<rfloor>
     \<and> gradient_idx 4 256 255 \<le> 2 \<and> gradient_idx 4 256 255 < 4 - 1
     \<and> (\<exists>colors. gradient_stops = Inr colors \<and> length colors = 4
          \<and> gradient_color colors 256 255 =
              interpolate colors (gradient_idx 4 256 255) (gradient_segment 4 256 255))"
  by (rule gradient_guard_unreachable) simp


section \<open>The alpha profiles\<close>

lemma flit_nonneg: "0 \<le> q \<Longrightarrow> 0 \<le> flit q"
  by (simp add: flit_def round_double_nonneg)

lemma float_of_int_nonneg: "0 \<le> i \<Longrightarrow> 0 \<le> float_of_int i"
  by (simp add: float_of_int_def round_double_nonneg)

lemma fmul_nonneg: "0 \<le> x \<Longrightarrow> 0 \<le> y \<Longrightarrow> 0 \<le> fmul x y"
  by (simp add: fmul_def round_double_nonneg)

lemma soft_core_val_nonneg: "0 \<le> soft_core_val"
  unfolding soft_core_val_def by (intro fmul_nonneg float_of_int_nonneg flit_nonneg) simp_all

lemma glow_mid_val_antitone: "n1 \<le> n2 \<Longrightarrow> glow_mid_val n2 \<le> glow_mid_val n1"
  unfolding glow_mid_val_def
  by (intro fmul_mono_left fsub_mono fmul_mono_right fdiv_mono order_refl
      float_of_int_nonneg flit_nonneg) simp_all

lemma glow_edge_val_antitone: "n1 \<le> n2 \<Longrightarrow> glow_edge_val n2 \<le> glow_edge_val n1"
  unfolding glow_edge_val_def
  by (intro fmul_mono_right fmul_mono_left fsub_mono fdiv_mono order_refl
      float_of_int_nonneg flit_nonneg) simp_all

lemma soft_mid_val_antitone: "n1 \<le> n2 \<Longrightarrow> soft_mid_val n2 \<le> soft_mid_val n1"
  unfolding soft_mid_val_def
  by (intro fmul_mono_left fsub_mono fdiv_mono order_refl soft_core_val_nonneg
      flit_nonneg) simp_all

lemma soft_edge_val_antitone: "n1 \<le> n2 \<Longrightarrow> soft_edge_val n2 \<le> soft_edge_val n1"
  unfolding soft_edge_val_def
  by (intro fmul_mono_right fmul_mono_left fsub_mono fdiv_mono order_refl soft_core_val_nonneg
      flit_nonneg) simp_all

lemma glow_alpha_outside: "1 \<le> n \<Longrightarrow> glow_alpha n = 0"
  unfolding glow_alpha_def flit_2 flit_5 flit_1 by simp

lemma soft_alpha_outside: "1 \<le> n \<Longrightarrow> soft_alpha n = 0"
  unfolding soft_alpha_def flit_3 flit_7 flit_1 by simp

lemma glow_alpha_segment_antitone:
  assumes "n1 \<le> n2" and "glow_segment n1 = glow_segment n2"
  shows "glow_alpha n2 \<le> glow_alpha n1"
  using assms
  by (auto simp: glow_alpha_def glow_segment_def split: if_splits
      intro!: py_int_mono glow_mid_val_antitone glow_edge_val_antitone)

lemma soft_alpha_segment_antitone:
  assumes "n1 \<le> n2" and "soft_segment n1 = soft_segment n2"
  shows "soft_alpha n2 \<le> soft_alpha n1"
  using assms
  by (auto simp: soft_alpha_def soft_segment_def split: if_splits
      intro!: py_int_mono soft_mid_val_antitone soft_edge_val_antitone)

lemma sprite_norm_dist_32:
  "sprite_norm_dist pw 32 x y =
     Inr (py_min (fdiv (pw (float_of_int (sq_distance 32 32 x y))) 32) 1)"
  using float_of_int_small [of 32]
  unfolding sprite_norm_dist_def Let_def flit_1 by simp

lemma sprite_loops_image:
  "sprite_loops alpha_of pw = Inr \<lparr>im_mode = ''RGBA'', im_size = (64, 64),
     im_px = \<lambda>p. if fst p < 64 \<and> snd p < 64
       then RGBA 255 255 255
         (alpha_of (py_min (fdiv (pw (float_of_int (sq_distance 32 32 (int (fst p)) (int (snd p))))) 32) 1))
       else RGBA 0 0 0 0\<rparr>"
  unfolding sprite_loops_def Let_def
  by (simp, rule pixel_loops) (simp add: sprite_pixel_def sprite_norm_dist_32 bnd_def)

lemma sprite_getpixel:
  assumes "x < 64" and "y < 64"
  shows "bnd (sprite_loops alpha_of pw) (\<lambda>img. getpixel img (x, y)) =
    Inr (RGBA 255 255 255
      (alpha_of (py_min (fdiv (pw (float_of_int (sq_distance 32 32 (int x) (int y)))) 32) 1)))"
  using assms by (simp add: sprite_loops_image bnd_def getpixel_def)

lemma soft_mid_07: "py_int (soft_mid_val (flit (7/10))) = 0" by code_simp
lemma soft_edge_07: "py_int (soft_edge_val (flit (7/10))) = 45" by code_simp
lemma glow_mid_02: "glow_mid_val (flit (2/10)) = 255" by code_simp
lemma glow_mid_05: "glow_mid_val (flit (5/10)) = 204" by code_simp
lemma glow_edge_05: "glow_edge_val (flit (5/10)) = 204" by code_simp
lemma soft_core_153: "soft_core_val = 153" by code_simp
lemma soft_mid_03: "soft_mid_val (flit (3/10)) = 153" by code_simp

lemma soft_alpha_at_22:
  "soft_alpha (py_min (fdiv (sqrt_double (float_of_int (sq_distance 32 32 54 32))) 32) 1) = 4"
  by code_simp

lemma soft_alpha_at_23:
  "soft_alpha (py_min (fdiv (sqrt_double (float_of_int (sq_distance 32 32 55 32))) 32) 1) = 43"
  by code_simp

text \<open>
  Claim C2. The alpha profiles are said to be continuous at their breakpoints. The glow
  profile is: its branches give 255 at \<open>0.2\<close> and 204 at \<open>0.5\<close> from both sides, and the
  soft profile gives 153 from both sides at \<open>0.3\<close>. At \<open>0.7\<close> the soft profile is not: the
  middle branch has fallen to 0 there, and the outer branch starts again at 45. In the
  buffer the pixel 22 columns right of the centre has alpha 4 and the next one has
  alpha 43.
\<close>

theorem soft_profile_jumps_at_0_7:
  "py_int (soft_mid_val (flit (7/10))) = 0 \<and> py_int (soft_edge_val (flit (7/10))) = 45
   \<and> bnd (generate_soft_particle_sprite sqrt_double) (\<lambda>img. getpixel img (54, 32)) =
        Inr (RGBA 255 255 255 4)
   \<and> bnd (generate_soft_particle_sprite sqrt_double) (\<lambda>img. getpixel img (55, 32)) =
        Inr (RGBA 255 255 255 43)
   \<and> py_int (glow_mid_val (flit (2/10))) = 255
   \<and> py_int (glow_mid_val (flit (5/10))) = 204 \<and> py_int (glow_edge_val (flit (5/10))) = 204
   \<and> py_int soft_core_val = 153 \<and> py_int (soft_mid_val (flit (3/10))) = 153"
proof -
  have "bnd (generate_soft_particle_sprite sqrt_double) (\<lambda>img. getpixel img (54, 32)) =
      Inr (RGBA 255 255 255 4)"
    unfolding generate_soft_particle_sprite_def
    using sprite_getpixel [of 54 32 soft_alpha sqrt_double] soft_alpha_at_22 by simp
  moreover have "bnd (generate_soft_particle_sprite sqrt_double) (\<lambda>img. getpixel img (55, 32)) =
      Inr (RGBA 255 255 255 43)"
    unfolding generate_soft_particle_sprite_def
    using sprite_getpixel [of 55 32 soft_alpha sqrt_double] soft_alpha_at_23 by simp
  ultimately show ?thesis
    unfolding soft_mid_07 soft_edge_07 glow_mid_02 glow_mid_05 glow_edge_05 soft_core_153 soft_mid_03
    by (simp add: py_int_def)
qed

text \<open>
  Claim C5. Both sprite generators return a buffer. A pixel whose normalised distance
  \<open>r\<close> from the centre is at least 1 has alpha 0 in both buffers, and so has every
  normalised distance \<open>n \<ge> 1\<close>. Within one branch of either profile (same segment for
  \<open>n1 \<le> n2\<close>) alpha does not increase with the distance.
\<close>

theorem sprite_alpha_zero_outside_and_antitone:
  assumes "x < 64" and "y < 64" and "n1 \<le> n2"
  shows "\<exists>glow soft r. generate_particle_sprite pw = Inr glow
      \<and> generate_soft_particle_sprite pw = Inr soft
      \<and> r = fdiv (pw (float_of_int (sq_distance 32 32 (int x) (int y)))) 32
      \<and> sprite_norm_dist pw 32 (int x) (int y) = Inr (py_min r 1)
      \<and> getpixel glow (x, y) = Inr (RGBA 255 255 255 (glow_alpha (py_min r 1)))
      \<and> getpixel soft (x, y) = Inr (RGBA 255 255 255 (soft_alpha (py_min r 1)))
      \<and> (1 \<le> r \<longrightarrow> getpixel glow (x, y) = Inr (RGBA 255 255 255 0)
            \<and> getpixel soft (x, y) = Inr (RGBA 255 255 255 0))
      \<and> (1 \<le> n \<longrightarrow> glow_alpha n = 0 \<and> soft_alpha n = 0)
      \<and> (glow_segment n1 = glow_segment n2 \<longrightarrow> glow_alpha n2 \<le> glow_alpha n1)
      \<and> (soft_segment n1 = soft_segment n2 \<longrightarrow> soft_alpha n2 \<le> soft_alpha n1)"
proof -
  define r where "r = fdiv (pw (float_of_int (sq_distance 32 32 (int x) (int y)))) 32"
  have out: "glow_alpha (py_min r 1) = 0 \<and> soft_alpha (py_min r 1) = 0" if "1 \<le> r"
    using that by (simp add: py_min_def glow_alpha_outside soft_alpha_outside)
  show ?thesis
    using assms out glow_alpha_outside [of n] soft_alpha_outside [of n]
      glow_alpha_segment_antitone [of n1 n2] soft_alpha_segment_antitone [of n1 n2]
    unfolding generate_particle_sprite_def generate_soft_particle_sprite_def
    by (simp add: sprite_loops_image getpixel_def sprite_norm_dist_32 r_def)
qed

lemma corner_ratio: "1 \<le> fdiv (sqrt_double (float_of_int (sq_distance 32 32 0 0))) 32"
  by code_simp

lemma segments_3_8_7_16:
  "glow_segment (3/8) = glow_segment (7/16) \<and> soft_segment (3/8) = soft_segment (7/16)"
  unfolding glow_segment_def soft_segment_def flit_1 flit_2 flit_3 flit_5 flit_7 by simp

theorem sprite_alpha_zero_outside_and_antitone_witness:
  "\<exists>glow soft. generate_particle_sprite sqrt_double = Inr glow
      \<and> generate_soft_particle_sprite sqrt_double = Inr soft
      \<and> 1 \<le> fdiv (sqrt_double (float_of_int (sq_distance 32 32 (int 0) (int 0)))) 32
      \<and> getpixel glow (0, 0) = Inr (RGBA 255 255 255 0)
      \<and> getpixel soft (0, 0) = Inr (RGBA 255 255 255 0)
      \<and> (1::rat) \<le> 5/4 \<and> glow_alpha (5/4) = 0 \<and> soft_alpha (5/4) = 0
      \<and> (3/8::rat) \<le> 7/16
      \<and> glow_segment (3/8) = glow_segment (7/16) \<and> glow_alpha (7/16) \<le> glow_alpha (3/8)
      \<and> soft_segment (3/8) = soft_segment (7/16) \<and> soft_alpha (7/16) \<le> soft_alpha (3/8)"
proof -
  have h: "(0::nat) < 64" "(3/8::rat) \<le> 7/16" by simp_all
  have c: "1 \<le> fdiv (sqrt_double (float_of_int (sq_distance 32 32 (int 0) (int 0)))) 32"
    using corner_ratio by simp
  from sprite_alpha_zero_outside_and_antitone [OF h(1) h(1) h(2), of sqrt_double "5/4"]
  obtain glow soft where
    "generate_particle_sprite sqrt_double = Inr glow"
    "generate_soft_particle_sprite sqrt_double = Inr soft"
    "1 \<le> fdiv (sqrt_double (float_of_int (sq_distance 32 32 (int 0) (int 0)))) 32 \<longrightarrow>
       getpixel glow (0, 0) = Inr (RGBA 255 255 255 0) \<and> getpixel soft (0, 0) = Inr (RGBA 255 255 255 0)"
    "(1::rat) \<le> 5/4 \<longrightarrow> glow_alpha (5/4) = 0 \<and> soft_alpha (5/4) = 0"
    "glow_segment (3/8) = glow_segment (7/16) \<longrightarrow> glow_alpha (7/16) \<le> glow_alpha (3/8)"
    "soft_segment (3/8) = soft_segment (7/16) \<longrightarrow> soft_alpha (7/16) \<le> soft_alpha (3/8)"
    by blast
  with c segments_3_8_7_16 show ?thesis
    by simp
qed


section \<open>The matcap and noise buffers\<close>

lemma isqrt_nonneg: "0 \<le> isqrt n"
proof (induction n rule: isqrt.induct)
  case (1 n)
  show ?case
  proof (cases "n \<le> 0")
    case True
    then show ?thesis by (simp add: isqrt.simps [of n])
  next
    case False
    with 1 have "0 \<le> isqrt (n div 4)" by simp
    with False show ?thesis
      by (simp add: isqrt.simps [of n] Let_def)
  qed
qed

lemma sqrt_double_nonneg: "0 \<le> sqrt_double x"
  unfolding sqrt_double_def Let_def
  by (auto intro!: round_double_nonneg divide_nonneg_pos add_nonneg_nonneg simp: isqrt_nonneg)

lemma sqrt_double_0: "sqrt_double 0 = 0"
  by (simp add: sqrt_double_def)

lemma matcap_norm_dist_128:
  assumes "pw 32768 \<noteq> 0"
  shows "matcap_norm_dist pw 128 128 x y =
     Inr (py_min (fdiv (pw (float_of_int (sq_distance 128 128 x y))) (pw 32768)) 1)"
  using assms float_of_int_small [of 32768]
  unfolding matcap_norm_dist_def Let_def flit_1 by simp

lemma generate_matcap_texture_image:
  assumes "pw 32768 \<noteq> 0"
  shows "generate_matcap_texture pw = Inr \<lparr>im_mode = ''RGB'', im_size = (256, 256),
     im_px = \<lambda>p. if fst p < 256 \<and> snd p < 256
       then (let n = py_min (fdiv (pw (float_of_int (sq_distance 128 128 (int (fst p)) (int (snd p)))))
                  (pw 32768)) 1
             in RGB (matcap_channel (flit (8/10)) n) (matcap_channel (flit (8/10)) n)
                  (matcap_channel (flit (5/10)) n))
       else RGB 0 0 0\<rparr>"
  unfolding generate_matcap_texture_def Let_def
  by (simp, rule pixel_loops)
    (simp add: matcap_pixel_def matcap_norm_dist_128 [of pw, OF assms] bnd_def Let_def)

lemma matcap_channel_formula:
  "matcap_channel k n = py_int (fmul 255 (fsub 1 (fmul n k)))"
  using float_of_int_small [of 255] float_of_int_small [of 1]
  by (simp add: matcap_channel_def)

lemma matcap_channel_range:
  assumes n: "0 \<le> n" "n \<le> 1" and q: "0 \<le> q" "q \<le> 1"
  shows "0 \<le> matcap_channel (flit q) n" and "matcap_channel (flit q) n \<le> 255"
proof -
  have one: "round_double 1 = 1" and c255: "round_double 255 = 255"
    using round_double_int [of 1] round_double_int [of 255] by simp_all
  have k: "0 \<le> flit q" "flit q \<le> 1"
    using q round_double_nonneg [of q] round_double_mono [of q 1] by (simp_all add: flit_def one)
  have "n * flit q \<le> 1 * 1"
    using n k by (intro mult_mono) simp_all
  then have p: "0 \<le> fmul n (flit q)" "fmul n (flit q) \<le> 1"
    using n k round_double_nonneg [of "n * flit q"] round_double_mono [of "n * flit q" 1]
    by (simp_all add: fmul_def one)
  have s: "0 \<le> fsub 1 (fmul n (flit q))" "fsub 1 (fmul n (flit q)) \<le> 1"
    using p round_double_nonneg [of "1 - fmul n (flit q)"]
      round_double_mono [of "1 - fmul n (flit q)" 1]
    by (simp_all add: fsub_def one)
  have "255 * fsub 1 (fmul n (flit q)) \<le> 255 * 1"
    using s by (intro mult_left_mono) simp_all
  then have m: "0 \<le> fmul 255 (fsub 1 (fmul n (flit q)))" "fmul 255 (fsub 1 (fmul n (flit q))) \<le> 255"
    using s round_double_nonneg [of "255 * fsub 1 (fmul n (flit q))"]
      round_double_mono [of "255 * fsub 1 (fmul n (flit q))" 255]
    by (simp_all add: fmul_def c255)
  show "0 \<le> matcap_channel (flit q) n"
    using m(1) by (simp add: matcap_channel_formula py_int_def)
  have "py_int (fmul 255 (fsub 1 (fmul n (flit q)))) \<le> py_int 255"
    using m(2) by (rule py_int_mono)
  then show "matcap_channel (flit q) n \<le> 255"
    by (simp add: matcap_channel_formula py_int_def)
qed

lemma matcap_channel_centre: "matcap_channel k 0 = 255"
  using round_double_int [of 1] round_double_int [of 255]
  by (simp add: matcap_channel_formula fmul_def fsub_def round_double_zero py_int_def)

lemma matcap_norm_range:
  assumes "0 \<le> d" and "0 < m"
  shows "0 \<le> py_min (fdiv d m) 1" and "py_min (fdiv d m) 1 \<le> 1"
  using assms round_double_nonneg [of "d / m"]
  by (simp_all add: py_min_def fdiv_def)

text \<open>
  Claim C6. For a square root \<open>pw\<close> that is nonnegative, nonzero at the squared corner
  distance \<open>32768\<close> and zero at zero, the matcap generator returns a buffer. With \<open>n\<close> the
  clamped normalised distance of pixel \<open>(x, y)\<close> from the centre \<open>(128, 128)\<close>, the pixel
  is \<open>(int(255 * (1 - n * 0.8)), int(255 * (1 - n * 0.8)), int(255 * (1 - n * 0.5)))\<close>,
  each channel lies in \<open>[0, 255]\<close> with no clamp applied, and the centre pixel is
  \<open>(255, 255, 255)\<close>.
\<close>

theorem matcap_pixel_formula_and_range:
  assumes "x < 256" and "y < 256"
    and "pw 32768 \<noteq> 0" and "\<And>d. 0 \<le> pw d" and "pw 0 = 0"
  shows "\<exists>img n r g b. generate_matcap_texture pw = Inr img
     \<and> n = py_min (fdiv (pw (float_of_int (sq_distance 128 128 (int x) (int y)))) (pw 32768)) 1
     \<and> 0 \<le> n \<and> n \<le> 1
     \<and> r = py_int (fmul 255 (fsub 1 (fmul n (flit (8/10)))))
     \<and> g = py_int (fmul 255 (fsub 1 (fmul n (flit (8/10)))))
     \<and> b = py_int (fmul 255 (fsub 1 (fmul n (flit (5/10)))))
     \<and> getpixel img (x, y) = Inr (RGB r g b)
     \<and> 0 \<le> r \<and> r \<le> 255 \<and> 0 \<le> g \<and> g \<le> 255 \<and> 0 \<le> b \<and> b \<le> 255
     \<and> getpixel img (128, 128) = Inr (RGB 255 255 255)"
proof -
  define n where
    "n = py_min (fdiv (pw (float_of_int (sq_distance 128 128 (int x) (int y)))) (pw 32768)) 1"
  have m: "0 < pw 32768"
    using assms(3) assms(4) [of 32768] by simp
  have n: "0 \<le> n" "n \<le> 1"
    unfolding n_def using assms(4) m by (intro matcap_norm_range; simp)+
  have r8: "0 \<le> matcap_channel (flit (8/10)) n" "matcap_channel (flit (8/10)) n \<le> 255"
    using n by (intro matcap_channel_range; simp)+
  have r5: "0 \<le> matcap_channel (flit (5/10)) n" "matcap_channel (flit (5/10)) n \<le> 255"
    using n by (intro matcap_channel_range; simp)+
  have px: "getpixel \<lparr>im_mode = ''RGB'', im_size = (256, 256),
     im_px = \<lambda>p. if fst p < 256 \<and> snd p < 256
       then (let n = py_min (fdiv (pw (float_of_int (sq_distance 128 128 (int (fst p)) (int (snd p)))))
                  (pw 32768)) 1
             in RGB (matcap_channel (flit (8/10)) n) (matcap_channel (flit (8/10)) n)
                  (matcap_channel (flit (5/10)) n))
       else RGB 0 0 0\<rparr> (x, y) =
      Inr (RGB (matcap_channel (flit (8/10)) n) (matcap_channel (flit (8/10)) n)
                  (matcap_channel (flit (5/10)) n))"
    using assms(1,2) by (simp add: getpixel_def n_def Let_def)
  have "float_of_int (sq_distance 128 128 (int 128) (int 128)) = 0"
    by (simp add: sq_distance_def float_of_int_def round_double_zero)
  then have "py_min (fdiv (pw (float_of_int (sq_distance 128 128 (int 128) (int 128)))) (pw 32768)) 1 = 0"
    using assms(5) by (simp add: fdiv_def round_double_zero py_min_def)
  then have centre: "getpixel \<lparr>im_mode = ''RGB'', im_size = (256, 256),
     im_px = \<lambda>p. if fst p < 256 \<and> snd p < 256
       then (let n = py_min (fdiv (pw (float_of_int (sq_distance 128 128 (int (fst p)) (int (snd p)))))
                  (pw 32768)) 1
             in RGB (matcap_channel (flit (8/10)) n) (matcap_channel (flit (8/10)) n)
                  (matcap_channel (flit (5/10)) n))
       else RGB 0 0 0\<rparr> (128, 128) = Inr (RGB 255 255 255)"
    by (simp add: getpixel_def Let_def matcap_channel_centre)
  show ?thesis
    unfolding generate_matcap_texture_image [of pw, OF assms(3)] n_def [symmetric]
    using n r8 r5 px centre
    by (simp add: matcap_channel_formula)
qed

lemma sqrt_double_32768_pos: "sqrt_double 32768 \<noteq> 0"
  by code_simp

lemma matcap_corner_norm:
  "py_min (fdiv (sqrt_double (float_of_int (sq_distance 128 128 (int 0) (int 0)))) (sqrt_double 32768)) 1 = 1"
  by code_simp

lemma matcap_corner_rg: "py_int (fmul 255 (fsub 1 (fmul 1 (flit (8/10))))) = 50"
  by code_simp

lemma matcap_corner_b: "py_int (fmul 255 (fsub 1 (fmul 1 (flit (5/10))))) = 127"
  by code_simp

theorem matcap_pixel_formula_and_range_witness:
  "\<exists>img. generate_matcap_texture sqrt_double = Inr img
     \<and> getpixel img (0, 0) = Inr (RGB 50 50 127)
     \<and> getpixel img (128, 128) = Inr (RGB 255 255 255)"
proof -
  have h: "(0::nat) < 256" by simp
  from matcap_pixel_formula_and_range [OF h h sqrt_double_32768_pos sqrt_double_nonneg sqrt_double_0]
  obtain img where "generate_matcap_texture sqrt_double = Inr img"
    and "getpixel img (0, 0) = Inr (RGB
      (py_int (fmul 255 (fsub 1 (fmul (py_min (fdiv (sqrt_double (float_of_int (sq_distance 128 128 (int 0) (int 0)))) (sqrt_double 32768)) 1) (flit (8/10))))))
      (py_int (fmul 255 (fsub 1 (fmul (py_min (fdiv (sqrt_double (float_of_int (sq_distance 128 128 (int 0) (int 0)))) (sqrt_double 32768)) 1) (flit (8/10))))))
      (py_int (fmul 255 (fsub 1 (fmul (py_min (fdiv (sqrt_double (float_of_int (sq_distance 128 128 (int 0) (int 0)))) (sqrt_double 32768)) 1) (flit (5/10)))))))"
    and "getpixel img (128, 128) = Inr (RGB 255 255 255)"
    by blast
  then show ?thesis
    unfolding matcap_corner_norm matcap_corner_rg matcap_corner_b by blast
qed

text \<open>
  Claim C7. Radial symmetry of the matcap buffer: two pixels at the same (squared)
  Euclidean distance from the centre \<open>(128, 128)\<close> hold the same colour.
\<close>

theorem matcap_radial_symmetry:
  assumes "x1 < 256" and "y1 < 256" and "x2 < 256" and "y2 < 256"
    and "pw 32768 \<noteq> 0"
    and "sq_distance 128 128 (int x1) (int y1) = sq_distance 128 128 (int x2) (int y2)"
  shows "\<exists>img c. generate_matcap_texture pw = Inr img
     \<and> getpixel img (x1, y1) = Inr c \<and> getpixel img (x2, y2) = Inr c"
  unfolding generate_matcap_texture_image [of pw, OF assms(5)]
  using assms(1-4,6) by (simp add: getpixel_def)

theorem matcap_radial_symmetry_witness:
  "sq_distance 128 128 (int 131) (int 132) = sq_distance 128 128 (int 133) (int 128)
   \<and> (\<exists>img c. generate_matcap_texture sqrt_double = Inr img
     \<and> getpixel img (131, 132) = Inr c \<and> getpixel img (133, 128) = Inr c)"
proof -
  have e: "sq_distance 128 128 (int 131) (int 132) = sq_distance 128 128 (int 133) (int 128)"
    by (simp add: sq_distance_def)
  show ?thesis
    using e matcap_radial_symmetry [of 131 132 133 128 sqrt_double, OF _ _ _ _ sqrt_double_32768_pos e]
    by simp
qed

text \<open>
  Claim C9. Whatever bytes the random source samples and whatever 8-bit band the blur
  returns, the noise generator returns a 512 x 512 \<^verbatim>\<open>'L'\<close> image, and every pixel of it is
  a value in \<open>[0, 255]\<close>.
\<close>

theorem noise_pixels_are_bytes:
  assumes "x < 512" and "y < 512"
  shows "\<exists>img v. generate_noise_texture noise blur = Inr img
     \<and> im_mode img = ''L'' \<and> im_size img = (512, 512)
     \<and> getpixel img (x, y) = Inr (L v) \<and> 0 \<le> uint v \<and> uint v \<le> 255"
proof -
  have "uint v \<le> 255" for v :: "8 word"
    using uint_bounded [of v] by simp
  then show ?thesis
    using assms
    by (simp add: generate_noise_texture_def filter_L_def fromarray_L_def getpixel_def Let_def)
qed

theorem noise_pixels_are_bytes_witness:
  "\<exists>img v. generate_noise_texture (\<lambda>_. 200) (\<lambda>a. a) = Inr img
     \<and> im_mode img = ''L'' \<and> im_size img = (512, 512)
     \<and> getpixel img (3, 511) = Inr (L v) \<and> 0 \<le> uint v \<and> uint v \<le> 255"
  using noise_pixels_are_bytes [of 3 511 "\<lambda>_. 200" "\<lambda>a. a"] by simp


section \<open>The driver loop\<close>

lemma print_accepted:
  assumes "sink_print sink txt = None"
  shows "print sink txt w = (None, w\<lparr>w_out := w_out w @ [txt]\<rparr>)"
  using assms by (simp add: print_def)

lemma print_refused:
  assumes "sink_print sink txt = Some e"
  shows "print sink txt w = (Some e, w)"
  using assms by (simp add: print_def)

lemma except_handler_reports:
  assumes "\<And>p n. sink_print sink (FailedLine p n) = None"
    and "\<And>e. sink_print sink (ErrorLine e) = None"
  shows "except_handler sink a e w =
    (None, w\<lparr>w_out := w_out w @ [FailedLine (a_path a) (a_name a), ErrorLine e]\<rparr>)"
  by (simp add: except_handler_def print_accepted assms)

lemma run_asset_goes_on:
  assumes "\<And>p n. sink_print sink (FailedLine p n) = None"
    and "\<And>e. sink_print sink (ErrorLine e) = None"
  shows "run_asset sink base a w =
    (None, w\<lparr>w_fs := fs_after sink base [a] (w_fs w),
             w_out := w_out w @ entry_lines sink base a (w_fs w)\<rparr>)"
proof (cases "a_generator a")
  case (Inl e)
  then show ?thesis
    by (simp add: run_asset_def try_body_def entry_lines_def except_handler_reports assms)
next
  case (Inr img)
  obtain r fs' where sv:
    "sink_save sink img (OUTPUT_DIR base @ [a_path a, a_name a]) (w_fs w) = (r, fs')"
    by (cases "sink_save sink img (OUTPUT_DIR base @ [a_path a, a_name a]) (w_fs w)")
  show ?thesis
  proof (cases r)
    case (Some e)
    with Inr sv show ?thesis
      by (simp add: run_asset_def try_body_def entry_lines_def except_handler_reports assms)
  next
    case None
    show ?thesis
    proof (cases "sink_print sink (GeneratedLine (a_path a) (a_name a))")
      case (Some e)
      with Inr sv None show ?thesis
        by (simp add: run_asset_def try_body_def entry_lines_def except_handler_reports assms
            print_refused)
    next
      case g: None
      show ?thesis
      proof (cases "sink_print sink (DescriptionLine (a_description a))")
        case (Some e)
        with Inr sv None g show ?thesis
          by (simp add: run_asset_def try_body_def entry_lines_def except_handler_reports assms
              print_refused print_accepted)
      next
        case d: None
        with Inr sv None g show ?thesis
          by (simp add: run_asset_def try_body_def entry_lines_def print_accepted)
      qed
    qed
  qed
qed

lemma asset_loop_goes_on:
  assumes "\<And>p n. sink_print sink (FailedLine p n) = None"
    and "\<And>e. sink_print sink (ErrorLine e) = None"
  shows "asset_loop sink base as w =
    (None, w\<lparr>w_fs := fs_after sink base as (w_fs w),
             w_out := w_out w @ concat (map (\<lambda>i. entry_lines sink base (as ! i)
                (fs_after sink base (take i as) (w_fs w))) [0..<length as])\<rparr>)"
proof (induction as arbitrary: w)
  case Nil
  then show ?case by simp
next
  case (Cons a as)
  let ?w = "w\<lparr>w_fs := fs_after sink base [a] (w_fs w),
             w_out := w_out w @ entry_lines sink base a (w_fs w)\<rparr>"
  have step: "run_asset sink base a w = (None, ?w)"
    by (rule run_asset_goes_on [OF assms])
  have "asset_loop sink base (a # as) w = asset_loop sink base as ?w"
    by (simp add: step)
  also have "\<dots> = (None, ?w\<lparr>w_fs := fs_after sink base as (w_fs ?w),
             w_out := w_out ?w @ concat (map (\<lambda>i. entry_lines sink base (as ! i)
                (fs_after sink base (take i as) (w_fs ?w))) [0..<length as])\<rparr>)"
    by (rule Cons.IH)
  finally show ?case
    by (simp add: map_upt_Suc del: upt_Suc)
qed

lemma assets_length: "length (assets pw noise blur) = 5"
  by (simp add: assets_def)

lemma main_goes_on:
  assumes "sink_print sink Banner = None" and "sink_print sink Complete = None"
    and "\<And>p n. sink_print sink (FailedLine p n) = None"
    and "\<And>e. sink_print sink (ErrorLine e) = None"
    and "ensure_directories sink base (w_fs w0) = (None, fs1)"
  shows "main sink base pw noise blur w0 =
    (None, w0\<lparr>w_fs := fs_after sink base (assets pw noise blur) fs1,
       w_out := w_out w0 @ [Banner]
         @ concat (map (\<lambda>i. entry_lines sink base (assets pw noise blur ! i)
                (fs_after sink base (take i (assets pw noise blur)) fs1)) [0, 1, 2, 3, 4])
         @ [Complete]\<rparr>)"
proof -
  have "[0..<length (assets pw noise blur)] = [0, 1, 2, 3, 4]"
    unfolding assets_length by (simp add: upt_rec)
  then show ?thesis
    using assms(5)
    by (simp add: main_def print_accepted assms(1,2) asset_loop_goes_on [OF assms(3,4)])
qed

lemma generate_matcap_texture_raises:
  assumes "pw 32768 = 0"
  shows "generate_matcap_texture pw = Inl ZeroDivisionError"
proof -
  have u: "[0..<256::nat] = 0 # [Suc 0..<256]"
    by (rule upt_conv_Cons) simp
  have "matcap_pixel pw 128 128 x y = Inl ZeroDivisionError" for x y
    using assms float_of_int_small [of 32768]
    by (simp add: matcap_pixel_def matcap_norm_dist_def bnd_def Let_def)
  then show ?thesis
    unfolding generate_matcap_texture_def Let_def u
    by (simp add: bnd_def)
qed

text \<open>
  A full disk behind a stdout that cannot encode the mark U+2717: the first entry's
  \<^verbatim>\<open>img.save\<close> raises, the handler's own print of the failure line raises
  \<^verbatim>\<open>UnicodeEncodeError\<close>, and that exception leaves \<^verbatim>\<open>main\<close>. Nothing but the banner has been
  printed, the error is not reported and the other four entries are not attempted.
\<close>

theorem failure_report_refused_by_stdout_aborts:
  "fst (ensure_directories ascii_sink [''repo''] []) = None
   \<and> main ascii_sink [''repo''] sqrt_double blank_noise no_blur \<lparr>w_fs = [], w_out = []\<rparr> =
       (Some UnicodeEncodeError, \<lparr>w_fs = [], w_out = [Banner]\<rparr>)"
proof -
  obtain g1 where g1: "generate_purple_gradient = Inr g1"
    using generate_purple_gradient_image by simp
  show ?thesis
    by (simp add: main_def print_def ensure_directories_def ascii_sink_def assets_def g1
        run_asset_def try_body_def except_handler_def)
qed

text \<open>
  Claim C4. Per-asset failure isolation, for a stdout that accepts the banner, the
  closing line and the two lines of the failure report. Once the directories exist, no
  exception leaves \<^verbatim>\<open>main\<close>, whatever the generators, \<^verbatim>\<open>img.save\<close> and the prints of the
  success report raise: the run prints the banner, then the lines of each of the five
  manifest entries in manifest order, then the closing line. Entry \<open>i\<close> is attempted in
  the file system the first \<open>i\<close> entries left behind, failed or not. When its generator
  raises \<open>e\<close>, when its \<^verbatim>\<open>img.save\<close> raises \<open>e\<close>, or when a print of its success report raises
  \<open>e\<close>, its lines end with the failure line, which carries the entry's path and name, and
  the error line, which carries \<open>e\<close>; otherwise they are the two lines of the success
  report.
\<close>

theorem per_asset_failure_isolation:
  assumes "sink_print sink Banner = None" and "sink_print sink Complete = None"
    and "\<And>p n. sink_print sink (FailedLine p n) = None"
    and "\<And>e. sink_print sink (ErrorLine e) = None"
    and "ensure_directories sink base (w_fs w0) = (None, fs1)"
  shows "fst (main sink base pw noise blur w0) = None
     \<and> w_fs (snd (main sink base pw noise blur w0)) = fs_after sink base (assets pw noise blur) fs1
     \<and> w_out (snd (main sink base pw noise blur w0)) =
          w_out w0 @ [Banner]
          @ concat (map (\<lambda>i.
              let a = assets pw noise blur ! i;
                  fs = fs_after sink base (take i (assets pw noise blur)) fs1
              in case a_generator a of
                   Inl e \<Rightarrow> [FailedLine (a_path a) (a_name a), ErrorLine e]
                 | Inr img \<Rightarrow>
                (case fst (sink_save sink img (OUTPUT_DIR base @ [a_path a, a_name a]) fs) of
                   Some e \<Rightarrow> [FailedLine (a_path a) (a_name a), ErrorLine e]
                 | None \<Rightarrow>
                (case sink_print sink (GeneratedLine (a_path a) (a_name a)) of
                   Some e \<Rightarrow> [FailedLine (a_path a) (a_name a), ErrorLine e]
                 | None \<Rightarrow>
                (case sink_print sink (DescriptionLine (a_description a)) of
                   Some e \<Rightarrow> [GeneratedLine (a_path a) (a_name a),
                               FailedLine (a_path a) (a_name a), ErrorLine e]
                 | None \<Rightarrow> [GeneratedLine (a_path a) (a_name a),
                             DescriptionLine (a_description a)]))))
              [0, 1, 2, 3, 4])
          @ [Complete]"
  unfolding main_goes_on [OF assms] entry_lines_def Let_def by simp

lemma flaky_save:
  "fst (sink_save flaky_sink img (OUTPUT_DIR base @ [p, n]) fs) =
     (if n = ''noise.png'' then Some (OSError ''No space left on device'') else None)"
  by (simp add: flaky_sink_def OUTPUT_DIR_def)

theorem per_asset_failure_isolation_witness:
  "ensure_directories flaky_sink [''repo''] (w_fs \<lparr>w_fs = [], w_out = []\<rparr>) = (None, [])
   \<and> sink_print flaky_sink Banner = None \<and> sink_print flaky_sink Complete = None
   \<and> fst (main flaky_sink [''repo''] zero_pow blank_noise no_blur \<lparr>w_fs = [], w_out = []\<rparr>) = None
   \<and> w_out (snd (main flaky_sink [''repo''] zero_pow blank_noise no_blur \<lparr>w_fs = [], w_out = []\<rparr>)) =
        [Banner,
         GeneratedLine ''textures'' ''purple-gradient.png'',
         DescriptionLine ''Purple gradient texture for scene theming'',
         FailedLine ''textures'' ''noise.png'',
         ErrorLine (OSError ''No space left on device''),
         FailedLine ''textures'' ''matcap-metallic.png'',
         ErrorLine ZeroDivisionError,
         GeneratedLine ''sprites'' ''particle-glow.png'',
         DescriptionLine ''Soft circular particle sprite with glow'',
         GeneratedLine ''sprites'' ''particle-soft.png'',
         DescriptionLine ''Extra soft particle sprite for background'',
         Complete]"
proof -
  have dirs: "ensure_directories flaky_sink [''repo''] (w_fs \<lparr>w_fs = [], w_out = []\<rparr>) = (None, [])"
    by (simp add: ensure_directories_def flaky_sink_def)
  have pr: "sink_print flaky_sink l = None" for l
    by (simp add: flaky_sink_def)
  obtain g1 where g1: "generate_purple_gradient = Inr g1"
    using generate_purple_gradient_image by simp
  obtain g2 where g2: "generate_noise_texture blank_noise no_blur = Inr g2"
    by (simp add: generate_noise_texture_def)
  have g3: "generate_matcap_texture zero_pow = Inl ZeroDivisionError"
    by (rule generate_matcap_texture_raises) (simp add: zero_pow_def)
  obtain g4 where g4: "generate_particle_sprite zero_pow = Inr g4"
    using sprite_loops_image [of glow_alpha zero_pow] by (simp add: generate_particle_sprite_def)
  obtain g5 where g5: "generate_soft_particle_sprite zero_pow = Inr g5"
    using sprite_loops_image [of soft_alpha zero_pow]
    by (simp add: generate_soft_particle_sprite_def)
  note run = per_asset_failure_isolation [OF pr pr pr pr dirs, of zero_pow blank_noise no_blur]
  have "w_out (snd (main flaky_sink [''repo''] zero_pow blank_noise no_blur \<lparr>w_fs = [], w_out = []\<rparr>)) =
        [Banner,
         GeneratedLine ''textures'' ''purple-gradient.png'',
         DescriptionLine ''Purple gradient texture for scene theming'',
         FailedLine ''textures'' ''noise.png'',
         ErrorLine (OSError ''No space left on device''),
         FailedLine ''textures'' ''matcap-metallic.png'',
         ErrorLine ZeroDivisionError,
         GeneratedLine ''sprites'' ''particle-glow.png'',
         DescriptionLine ''Soft circular particle sprite with glow'',
         GeneratedLine ''sprites'' ''particle-soft.png'',
         DescriptionLine ''Extra soft particle sprite for background'',
         Complete]"
    unfolding conjunct2 [OF conjunct2 [OF run]] flaky_save pr
    by (simp add: assets_def g1 g2 g3 g4 g5)
  with dirs conjunct1 [OF run] pr show ?thesis
    by (intro conjI)
qed

text \<open>
  Claim C3. On a read-only destination, where every directory creation and every write
  raises, the run is said to report five failures and to end normally. It does not:
  \<^verbatim>\<open>ensure_directories\<close> is called before the loop and outside its \<^verbatim>\<open>try\<close>, so the first
  \<^verbatim>\<open>mkdir\<close> raises out of \<^verbatim>\<open>main\<close>. Only the banner has been printed and no manifest entry has
  been attempted.
\<close>

theorem readonly_root_aborts_before_first_asset:
  "main readonly_sink base pw noise blur \<lparr>w_fs = (), w_out = []\<rparr> =
     (Some (OSError ''Read-only file system''), \<lparr>w_fs = (), w_out = [Banner]\<rparr>)"
  by (simp add: main_def ensure_directories_def readonly_sink_def print_def)

end
